theory Spec2Isabelle
  imports Main "HOL-Library.Word"
begin

section \<open>Geometry values used by the controller\<close>

text \<open>
  Modelled from the spec: the point, size and rectangle types of
  \<^verbatim>\<open>dxgi_duplicator_controller.cc\<close> (Qt's QPoint, QSize and QRect) are not under src/.
  The spec speaks of the union of rectangles, of translating a rectangle, of its
  top-left corner and of the empty rectangle; the definitions below give these the
  meaning they have for Qt's integer rectangle, which stores the two corners
  \<open>(x1, y1)\<close> and \<open>(x2, y2)\<close> inclusively. Coordinates are unbounded integers:
  desktop coordinates stay far from the limits of a 32-bit int.
\<close>

record QPoint =
  pt_x :: int
  pt_y :: int

record QSize =
  sz_width :: int
  sz_height :: int

record QRect =
  rc_x1 :: int
  rc_y1 :: int
  rc_x2 :: int
  rc_y2 :: int

definition QRect_default :: QRect where
  "QRect_default = \<lparr>rc_x1 = 0, rc_y1 = 0, rc_x2 = - 1, rc_y2 = - 1\<rparr>"

definition QPoint_default :: QPoint where
  "QPoint_default = \<lparr>pt_x = 0, pt_y = 0\<rparr>"

definition isNull :: "QRect \<Rightarrow> bool" where
  "isNull r = (rc_x2 r = rc_x1 r - 1 \<and> rc_y2 r = rc_y1 r - 1)"

definition isEmpty :: "QRect \<Rightarrow> bool" where
  "isEmpty r = (rc_x1 r > rc_x2 r \<or> rc_y1 r > rc_y2 r)"

definition topLeft :: "QRect \<Rightarrow> QPoint" where
  "topLeft r = \<lparr>pt_x = rc_x1 r, pt_y = rc_y1 r\<rparr>"

definition rect_size :: "QRect \<Rightarrow> QSize" where
  "rect_size r = \<lparr>sz_width = rc_x2 r - rc_x1 r + 1, sz_height = rc_y2 r - rc_y1 r + 1\<rparr>"

definition point_minus :: "QPoint \<Rightarrow> QPoint \<Rightarrow> QPoint" where
  "point_minus p q = \<lparr>pt_x = pt_x p - pt_x q, pt_y = pt_y p - pt_y q\<rparr>"

definition translated :: "QRect \<Rightarrow> QPoint \<Rightarrow> QRect" where
  "translated r p =
     \<lparr>rc_x1 = rc_x1 r + pt_x p, rc_y1 = rc_y1 r + pt_y p,
      rc_x2 = rc_x2 r + pt_x p, rc_y2 = rc_y2 r + pt_y p\<rparr>"

text \<open>
  The bounding rectangle of two rectangles. A null rectangle contributes nothing; a
  rectangle whose corners are swapped is read with its corners in order.
\<close>

definition united :: "QRect \<Rightarrow> QRect \<Rightarrow> QRect" where
  "united a b =
     (if isNull a then b
      else if isNull b then a
      else
        (let l1 = (if rc_x2 a - rc_x1 a + 1 < 0 then rc_x2 a else rc_x1 a);
             r1 = (if rc_x2 a - rc_x1 a + 1 < 0 then rc_x1 a else rc_x2 a);
             l2 = (if rc_x2 b - rc_x1 b + 1 < 0 then rc_x2 b else rc_x1 b);
             r2 = (if rc_x2 b - rc_x1 b + 1 < 0 then rc_x1 b else rc_x2 b);
             t1 = (if rc_y2 a - rc_y1 a + 1 < 0 then rc_y2 a else rc_y1 a);
             b1 = (if rc_y2 a - rc_y1 a + 1 < 0 then rc_y1 a else rc_y2 a);
             t2 = (if rc_y2 b - rc_y1 b + 1 < 0 then rc_y2 b else rc_y1 b);
             b2 = (if rc_y2 b - rc_y1 b + 1 < 0 then rc_y1 b else rc_y2 b)
         in \<lparr>rc_x1 = min l1 l2, rc_y1 = min t1 t2, rc_x2 = max r1 r2, rc_y2 = max b1 b2\<rparr>))"

text \<open>The union of a sequence of rectangles, taken from the left as the controller does.\<close>

fun united_all :: "QRect \<Rightarrow> QRect list \<Rightarrow> QRect" where
  "united_all acc [] = acc"
| "united_all acc (r # rs) = united_all (united acc r) rs"

section \<open>Data of the controller\<close>

datatype Result =
    SUCCEEDED
  | UNSUPPORTED_SESSION
  | FRAME_PREPARE_FAILED
  | INITIALIZATION_FAILED
  | DUPLICATION_FAILED
  | INVALID_MONITOR_ID

text \<open>
  What a model function returns when the source would not return a value: a vector
  read past its end, or a warm-up loop that is still running when the recorded clock
  readings of the environment are used up.
\<close>

datatype fault = OutOfRange | ClockExhausted

record D3dInfo =
  min_feature_level :: int
  max_feature_level :: int

text \<open>
  A graphics device as \<^verbatim>\<open>D3dDevice::enumDevices()\<close> yields it: the adapter it stands
  for and the feature level \<^verbatim>\<open>GetFeatureLevel()\<close> reports.
\<close>

record D3dDevice =
  adapter_luid :: nat
  feature_level :: int

text \<open>
  The frame a caller hands in (\<^verbatim>\<open>DxgiFrame\<close>): its context and the shared frame that
  receives the pixels. \<open>'c\<close> is the per-adapter sub-context, \<open>'p\<close> the pixel data.
\<close>

record 'c Context =
  controller_id :: int
  contexts :: "'c list"

record 'p SharedFrame =
  frame_size :: QSize
  frame_topLeft :: QPoint
  updatedRegion :: "QRect list"
  pixels :: 'p

record ('c, 'p) DxgiFrame =
  frame_context :: "'c Context"
  frame :: "'p SharedFrame"

text \<open>
  The collaborators of the controller whose code is not under src/, taken as
  parameters: the per-adapter duplicator (\<^verbatim>\<open>DxgiAdapterDuplicator\<close>, state \<open>'a\<close>), the
  caller's frame (\<^verbatim>\<open>DxgiFrame::prepare\<close>) and the creation of a fallback frame.
  A method that mutates its receiver or an argument returns the new values.
  \<open>ad_initialize\<close> stands for constructing a duplicator on a device and calling its
  \<^verbatim>\<open>initialize()\<close>: \<open>None\<close> when that returns false. The screen count of an adapter is
  the number of its outputs, hence a natural number.
\<close>

record ('a, 'c, 'p) collaborators =
  ad_initialize :: "D3dDevice \<Rightarrow> 'a option"
  ad_desktopRect :: "'a \<Rightarrow> QRect"
  ad_screenCount :: "'a \<Rightarrow> nat"
  ad_screenRect :: "'a \<Rightarrow> int \<Rightarrow> QRect"
  ad_deviceName :: "'a \<Rightarrow> int \<Rightarrow> string"
  ad_numFramesCaptured :: "'a \<Rightarrow> 64 word"
  ad_setup :: "'a \<Rightarrow> 'c \<Rightarrow> 'a \<times> 'c"
  ad_unregister :: "'a \<Rightarrow> 'c \<Rightarrow> 'a"
  ad_duplicate :: "'a \<Rightarrow> 'c \<Rightarrow> 'p SharedFrame \<Rightarrow> bool \<times> 'a \<times> 'c \<times> 'p SharedFrame"
  ad_duplicateMonitor ::
    "'a \<Rightarrow> 'c \<Rightarrow> int \<Rightarrow> 'p SharedFrame \<Rightarrow> bool \<times> 'a \<times> 'c \<times> 'p SharedFrame"
  ad_translateRect :: "'a \<Rightarrow> QPoint \<Rightarrow> 'a"
  ctx_default :: 'c
  fr_prepare :: "('c, 'p) DxgiFrame \<Rightarrow> QSize \<Rightarrow> int \<Rightarrow> bool \<times> ('c, 'p) DxgiFrame"
  fr_create :: "QSize \<Rightarrow> 'p SharedFrame"

text \<open>
  What the platform answers during one call: the display rectangle the change probe
  sees and its answer on a first poll, the enumerated devices, the DPI of the screen
  DC (\<open>None\<close> when \<^verbatim>\<open>GetDC\<close> fails), the session id of the process (\<open>None\<close> when
  \<^verbatim>\<open>ProcessIdToSessionId\<close> fails) and the successive readings of the clock in
  milliseconds.
\<close>

record environment =
  display_rect :: QRect
  first_poll_changed :: bool
  devices :: "D3dDevice list"
  screen_dpi :: "QPoint option"
  session_id :: "nat option"
  clock :: "int list"

text \<open>
  The members of \<^verbatim>\<open>DxgiDuplicatorController\<close>. The header is not under src/; the
  counters are modelled as unbounded integers.
\<close>

record 'a controller =
  refcount :: int
  identity :: int
  desktop_rect :: QRect
  dpi_xy :: QPoint
  duplicators :: "'a list"
  d3d_info :: D3dInfo
  display_configuration_monitor :: "QRect option"
  succeeded_duplications :: int

definition new_controller :: "'a controller" where
  "new_controller =
     \<lparr>refcount = 0, identity = 0, desktop_rect = QRect_default, dpi_xy = QPoint_default,
      duplicators = [], d3d_info = \<lparr>min_feature_level = 0, max_feature_level = 0\<rparr>,
      display_configuration_monitor = None, succeeded_duplications = 0\<rparr>"

section \<open>The probes\<close>

text \<open>
  Modelled from the spec: the display-change probe (\<^verbatim>\<open>DisplayConfigurationMonitor\<close>) is
  not under src/. \<open>isChanged\<close> is true iff the display reported by the platform differs
  from the one seen at the previous poll; the answer of the first poll after a reset
  is left open by the spec and is taken from the environment. \<open>reset\<close> clears the
  remembered display; the controller's member after a reset is \<open>None\<close>.
\<close>

definition isChanged :: "QRect option \<Rightarrow> environment \<Rightarrow> bool \<times> QRect option" where
  "isChanged mon env =
     (case mon of
        None \<Rightarrow> (first_poll_changed env, Some (display_rect env))
      | Some seen \<Rightarrow> (seen \<noteq> display_rect env, Some (display_rect env)))"

definition isCurrentSessionSupported :: "environment \<Rightarrow> bool" where
  "isCurrentSessionSupported env =
     (case session_id env of
        None \<Rightarrow> False
      | Some sid \<Rightarrow> sid \<noteq> 0)"

section \<open>Initialization and teardown\<close>

definition deinitialize :: "'a controller \<Rightarrow> 'a controller" where
  "deinitialize s =
     s\<lparr>desktop_rect := QRect_default, duplicators := [],
       display_configuration_monitor := None\<rparr>"

definition unload :: "'a controller \<Rightarrow> 'a controller" where
  "unload s = deinitialize s"

definition addRef :: "'a controller \<Rightarrow> 'a controller" where
  "addRef s = s\<lparr>refcount := refcount s + 1\<rparr>"

definition release :: "'a controller \<Rightarrow> 'a controller" where
  "release s =
     (let s1 = s\<lparr>refcount := refcount s - 1\<rparr>
      in if refcount s1 = 0 then unload s1 else s1)"

definition translateRect :: "('a, 'c, 'p) collaborators \<Rightarrow> 'a controller \<Rightarrow> 'a controller" where
  "translateRect ops s =
     (let position = point_minus \<lparr>pt_x = 0, pt_y = 0\<rparr> (topLeft (desktop_rect s))
      in s\<lparr>desktop_rect := translated (desktop_rect s) position,
           duplicators := map (\<lambda>d. ad_translateRect ops d position) (duplicators s)\<rparr>)"

text \<open>One round of the loop over the devices in \<^verbatim>\<open>doInitialize\<close>.\<close>

definition record_feature_level :: "int \<Rightarrow> D3dInfo \<Rightarrow> D3dInfo" where
  "record_feature_level fl info =
     (let info1 = (if max_feature_level info = 0 \<or> fl > max_feature_level info
                   then info\<lparr>max_feature_level := fl\<rparr> else info)
      in if min_feature_level info1 = 0 \<or> fl < min_feature_level info1
         then info1\<lparr>min_feature_level := fl\<rparr> else info1)"

fun doInitialize_loop ::
  "('a, 'c, 'p) collaborators \<Rightarrow> D3dDevice list \<Rightarrow> 'a controller \<Rightarrow> 'a controller" where
  "doInitialize_loop ops [] s = s"
| "doInitialize_loop ops (dev # devs) s =
     (let s1 = s\<lparr>d3d_info := record_feature_level (feature_level dev) (d3d_info s)\<rparr>
      in case ad_initialize ops dev of
           None \<Rightarrow> doInitialize_loop ops devs s1
         | Some duplicator \<Rightarrow>
             doInitialize_loop ops devs
               (s1\<lparr>duplicators := duplicators s1 @ [duplicator],
                   desktop_rect := united (desktop_rect s1) (ad_desktopRect ops duplicator)\<rparr>))"

definition doInitialize ::
  "('a, 'c, 'p) collaborators \<Rightarrow> environment \<Rightarrow> 'a controller \<Rightarrow> bool \<times> 'a controller" where
  "doInitialize ops env s =
     (let s1 = s\<lparr>d3d_info := \<lparr>min_feature_level = 0, max_feature_level = 0\<rparr>\<rparr>
      in if devices env = [] then (False, s1)
         else
           (let s2 = doInitialize_loop ops (devices env) s1;
                s3 = translateRect ops s2;
                s4 = (case screen_dpi env of None \<Rightarrow> s3 | Some p \<Rightarrow> s3\<lparr>dpi_xy := p\<rparr>);
                s5 = s4\<lparr>identity := identity s4 + 1\<rparr>
            in (duplicators s5 \<noteq> [], s5)))"

definition initialize ::
  "('a, 'c, 'p) collaborators \<Rightarrow> environment \<Rightarrow> 'a controller \<Rightarrow> bool \<times> 'a controller" where
  "initialize ops env s =
     (if duplicators s \<noteq> [] then (True, s)
      else
        (case doInitialize ops env s of
           (True, s1) \<Rightarrow> (True, s1)
         | (False, s1) \<Rightarrow> (False, deinitialize s1)))"

section \<open>Contexts\<close>

definition contextExpired :: "'a controller \<Rightarrow> 'c Context \<Rightarrow> bool" where
  "contextExpired s ctx =
     (controller_id ctx \<noteq> identity s \<or> length (contexts ctx) \<noteq> length (duplicators s))"

text \<open>
  The loop of \<^verbatim>\<open>setup\<close> over the adapters. The sub-contexts it walks are the ones
  \<^verbatim>\<open>resize\<close> has just created, one default sub-context per adapter, so the i-th
  adapter always has an i-th sub-context.
\<close>

fun setup_loop :: "('a, 'c, 'p) collaborators \<Rightarrow> 'a list \<Rightarrow> 'a list \<times> 'c list" where
  "setup_loop ops [] = ([], [])"
| "setup_loop ops (d # ds) =
     (case ad_setup ops d (ctx_default ops) of
        (d1, c1) \<Rightarrow> (case setup_loop ops ds of (ds1, cs1) \<Rightarrow> (d1 # ds1, c1 # cs1)))"

definition setup_context ::
  "('a, 'c, 'p) collaborators \<Rightarrow> 'a controller \<Rightarrow> 'c Context \<Rightarrow> 'a controller \<times> 'c Context" where
  "setup_context ops s ctx =
     (if contextExpired s ctx then
        (case setup_loop ops (duplicators s) of
           (ds1, cs1) \<Rightarrow>
             (s\<lparr>duplicators := ds1\<rparr>, ctx\<lparr>contexts := cs1, controller_id := identity s\<rparr>))
      else (s, ctx))"

text \<open>
  The loop of \<^verbatim>\<open>unregister\<close>. It runs only for a context that is not expired, which
  has exactly one sub-context per adapter; the last equation is never reached from
  \<open>unregister\<close>.
\<close>

fun unregister_loop :: "('a, 'c, 'p) collaborators \<Rightarrow> 'a list \<Rightarrow> 'c list \<Rightarrow> 'a list" where
  "unregister_loop ops [] cs = []"
| "unregister_loop ops (d # ds) (c # cs) = ad_unregister ops d c # unregister_loop ops ds cs"
| "unregister_loop ops (d # ds) [] = d # ds"

definition unregister ::
  "('a, 'c, 'p) collaborators \<Rightarrow> 'a controller \<Rightarrow> 'c Context \<Rightarrow> 'a controller" where
  "unregister ops s ctx =
     (if contextExpired s ctx then s
      else s\<lparr>duplicators := unregister_loop ops (duplicators s) (contexts ctx)\<rparr>)"

section \<open>Aggregation over the adapters\<close>

definition INT64_MAX :: int where
  "INT64_MAX = 9223372036854775807"

fun numFramesCaptured_loop :: "('a, 'c, 'p) collaborators \<Rightarrow> int \<Rightarrow> 'a list \<Rightarrow> int" where
  "numFramesCaptured_loop ops m [] = m"
| "numFramesCaptured_loop ops m (d # ds) =
     numFramesCaptured_loop ops (min m (sint (ad_numFramesCaptured ops d))) ds"

definition numFramesCaptured :: "('a, 'c, 'p) collaborators \<Rightarrow> 'a controller \<Rightarrow> int" where
  "numFramesCaptured ops s = numFramesCaptured_loop ops INT64_MAX (duplicators s)"

definition desktopSize :: "'a controller \<Rightarrow> QSize" where
  "desktopSize s = rect_size (desktop_rect s)"

fun screenRect_loop :: "('a, 'c, 'p) collaborators \<Rightarrow> 'a list \<Rightarrow> int \<Rightarrow> QRect" where
  "screenRect_loop ops [] i = QRect_default"
| "screenRect_loop ops (d # ds) i =
     (if i \<ge> int (ad_screenCount ops d) then screenRect_loop ops ds (i - int (ad_screenCount ops d))
      else ad_screenRect ops d i)"

definition screenRect :: "('a, 'c, 'p) collaborators \<Rightarrow> 'a controller \<Rightarrow> int \<Rightarrow> QRect" where
  "screenRect ops s i = screenRect_loop ops (duplicators s) i"

fun screenCount_loop :: "('a, 'c, 'p) collaborators \<Rightarrow> int \<Rightarrow> 'a list \<Rightarrow> int" where
  "screenCount_loop ops result [] = result"
| "screenCount_loop ops result (d # ds) =
     screenCount_loop ops (result + int (ad_screenCount ops d)) ds"

definition screenCountUnlocked :: "('a, 'c, 'p) collaborators \<Rightarrow> 'a controller \<Rightarrow> int" where
  "screenCountUnlocked ops s = screenCount_loop ops 0 (duplicators s)"

definition deviceNamesUnlocked ::
  "('a, 'c, 'p) collaborators \<Rightarrow> 'a controller \<Rightarrow> string list \<Rightarrow> string list" where
  "deviceNamesUnlocked ops s output =
     output @ concat (map (\<lambda>d. map (\<lambda>i. ad_deviceName ops d (int i)) [0 ..< ad_screenCount ops d])
                          (duplicators s))"

definition selectedDesktopSize ::
  "('a, 'c, 'p) collaborators \<Rightarrow> 'a controller \<Rightarrow> int \<Rightarrow> QSize" where
  "selectedDesktopSize ops s monitor_id =
     (if monitor_id < 0 then desktopSize s else rect_size (screenRect ops s monitor_id))"

section \<open>Duplication\<close>

text \<open>
  \<^verbatim>\<open>doDuplicateAll\<close> reads \<^verbatim>\<open>context->contexts[i]\<close> for every adapter index without
  a bound check; with fewer sub-contexts than adapters the read is past the end of
  the vector, which the model reports as \<open>OutOfRange\<close>.
\<close>

fun doDuplicateAll_loop ::
  "('a, 'c, 'p) collaborators \<Rightarrow> 'a list \<Rightarrow> 'c list \<Rightarrow> 'p SharedFrame \<Rightarrow>
     bool \<times> 'a list \<times> 'c list \<times> 'p SharedFrame" where
  "doDuplicateAll_loop ops [] cs target = (True, [], cs, target)"
| "doDuplicateAll_loop ops (d # ds) (c # cs) target =
     (case ad_duplicate ops d c target of
        (ok, d1, c1, target1) \<Rightarrow>
          if \<not> ok then (False, d1 # ds, c1 # cs, target1)
          else
            (case doDuplicateAll_loop ops ds cs target1 of
               (r, ds1, cs1, target2) \<Rightarrow> (r, d1 # ds1, c1 # cs1, target2)))"
| "doDuplicateAll_loop ops (d # ds) [] target = (False, d # ds, [], target)"

definition doDuplicateAll ::
  "('a, 'c, 'p) collaborators \<Rightarrow> 'a controller \<Rightarrow> 'c Context \<Rightarrow> 'p SharedFrame \<Rightarrow>
     fault + (bool \<times> 'a controller \<times> 'c Context \<times> 'p SharedFrame)" where
  "doDuplicateAll ops s ctx target =
     (if length (contexts ctx) < length (duplicators s) then Inl OutOfRange
      else
        (case doDuplicateAll_loop ops (duplicators s) (contexts ctx) target of
           (r, ds1, cs1, target1) \<Rightarrow>
             Inr (r, s\<lparr>duplicators := ds1\<rparr>, ctx\<lparr>contexts := cs1\<rparr>, target1)))"

definition setTopLeft :: "'p SharedFrame \<Rightarrow> QPoint \<Rightarrow> 'p SharedFrame" where
  "setTopLeft target p = target\<lparr>frame_topLeft := p\<rparr>"

text \<open>
  The loop of \<^verbatim>\<open>doDuplicateOne\<close> stops at the end of the adapters or of the
  sub-contexts, whichever comes first, and then returns false.
\<close>

fun doDuplicateOne_loop ::
  "('a, 'c, 'p) collaborators \<Rightarrow> 'a list \<Rightarrow> 'c list \<Rightarrow> int \<Rightarrow> 'p SharedFrame \<Rightarrow>
     bool \<times> 'a list \<times> 'c list \<times> 'p SharedFrame" where
  "doDuplicateOne_loop ops (d # ds) (c # cs) monitor_id target =
     (if monitor_id \<ge> int (ad_screenCount ops d) then
        (case doDuplicateOne_loop ops ds cs (monitor_id - int (ad_screenCount ops d)) target of
           (r, ds1, cs1, target1) \<Rightarrow> (r, d # ds1, c # cs1, target1))
      else
        (case ad_duplicateMonitor ops d c monitor_id target of
           (ok, d1, c1, target1) \<Rightarrow>
             if ok then
               (True, d1 # ds, c1 # cs,
                setTopLeft target1 (topLeft (ad_screenRect ops d1 monitor_id)))
             else (False, d1 # ds, c1 # cs, target1)))"
| "doDuplicateOne_loop ops ds cs monitor_id target = (False, ds, cs, target)"

definition doDuplicateOne ::
  "('a, 'c, 'p) collaborators \<Rightarrow> 'a controller \<Rightarrow> 'c Context \<Rightarrow> int \<Rightarrow> 'p SharedFrame \<Rightarrow>
     bool \<times> 'a controller \<times> 'c Context \<times> 'p SharedFrame" where
  "doDuplicateOne ops s ctx monitor_id target =
     (case doDuplicateOne_loop ops (duplicators s) (contexts ctx) monitor_id target of
        (r, ds1, cs1, target1) \<Rightarrow> (r, s\<lparr>duplicators := ds1\<rparr>, ctx\<lparr>contexts := cs1\<rparr>, target1))"

section \<open>Warm-up\<close>

definition frames_to_skip :: int where
  "frames_to_skip = 1"

definition timeout_ms :: int where
  "timeout_ms = 500"

text \<open>One reading of \<^verbatim>\<open>Clock::now()\<close>, taken from the readings of the environment.\<close>

fun tick :: "int list \<Rightarrow> fault + (int \<times> int list)" where
  "tick [] = Inl ClockExhausted"
| "tick (t # ts) = Inr (t, ts)"

text \<open>
  The \<^verbatim>\<open>while\<close> loop of \<^verbatim>\<open>ensureFrameCaptured\<close>. The sleep before a frame reads the
  clock once; how long it sleeps shows only in the later readings.
\<close>

function ensureFrameCaptured_loop ::
  "('a, 'c, 'p) collaborators \<Rightarrow> int \<Rightarrow> int list \<Rightarrow> 'a controller \<Rightarrow> 'c Context \<Rightarrow>
     'p SharedFrame \<Rightarrow> fault + (bool \<times> 'a controller \<times> 'c Context \<times> 'p SharedFrame)" where
  "ensureFrameCaptured_loop ops start_ms clk s ctx shared_frame =
     (if numFramesCaptured ops s < frames_to_skip then
        (case (if numFramesCaptured ops s > 0 then tick clk else Inr (start_ms, clk)) of
           Inl f \<Rightarrow> Inl f
         | Inr (slept, clk1) \<Rightarrow>
             (case tick clk1 of
                Inl f \<Rightarrow> Inl f
              | Inr (last_frame_start_ms, clk2) \<Rightarrow>
                  (case doDuplicateAll ops s ctx shared_frame of
                     Inl f \<Rightarrow> Inl f
                   | Inr (ok, s1, ctx1, shared_frame1) \<Rightarrow>
                       if \<not> ok then Inr (False, s1, ctx1, shared_frame1)
                       else
                         (case tick clk2 of
                            Inl f \<Rightarrow> Inl f
                          | Inr (now, clk3) \<Rightarrow>
                              if now - start_ms > timeout_ms
                              then Inr (False, s1, ctx1, shared_frame1)
                              else ensureFrameCaptured_loop ops start_ms clk3 s1 ctx1
                                     shared_frame1))))
      else Inr (True, s, ctx, shared_frame))"
  by pat_completeness auto

termination ensureFrameCaptured_loop
  apply (relation "measure (\<lambda>(ops, start_ms, clk, s, ctx, shared_frame). length clk)")
   apply simp
  apply (auto split: if_splits elim!: tick.elims)
  done

declare ensureFrameCaptured_loop.simps [simp del]

definition ensureFrameCaptured ::
  "('a, 'c, 'p) collaborators \<Rightarrow> environment \<Rightarrow> 'a controller \<Rightarrow> 'c Context \<Rightarrow>
     'p SharedFrame \<Rightarrow> fault + (bool \<times> 'a controller \<times> 'c Context \<times> 'p SharedFrame)" where
  "ensureFrameCaptured ops env s ctx target =
     (if numFramesCaptured ops s \<ge> frames_to_skip then Inr (True, s, ctx, target)
      else
        (let use_target =
               (sz_width (frame_size target) \<ge> sz_width (desktopSize s) \<and>
                sz_height (frame_size target) \<ge> sz_height (desktopSize s));
             shared_frame = (if use_target then target else fr_create ops (desktopSize s))
         in case tick (clock env) of
              Inl f \<Rightarrow> Inl f
            | Inr (start_ms, clk) \<Rightarrow>
                (case ensureFrameCaptured_loop ops start_ms clk s ctx shared_frame of
                   Inl f \<Rightarrow> Inl f
                 | Inr (r, s1, ctx1, shared_frame1) \<Rightarrow>
                     Inr (r, s1, ctx1, if use_target then shared_frame1 else target))))"

definition doDuplicateUnlocked ::
  "('a, 'c, 'p) collaborators \<Rightarrow> environment \<Rightarrow> 'a controller \<Rightarrow> 'c Context \<Rightarrow> int \<Rightarrow>
     'p SharedFrame \<Rightarrow> fault + (bool \<times> 'a controller \<times> 'c Context \<times> 'p SharedFrame)" where
  "doDuplicateUnlocked ops env s ctx monitor_id target =
     (case setup_context ops s ctx of
        (s1, ctx1) \<Rightarrow>
          (case ensureFrameCaptured ops env s1 ctx1 target of
             Inl f \<Rightarrow> Inl f
           | Inr (warm, s2, ctx2, target2) \<Rightarrow>
               if \<not> warm then Inr (False, s2, ctx2, target2)
               else if monitor_id < 0 then doDuplicateAll ops s2 ctx2 target2
               else Inr (doDuplicateOne ops s2 ctx2 monitor_id target2)))"

section \<open>The public operations\<close>

text \<open>The poll of the display-change probe at the start of \<^verbatim>\<open>doDuplicate\<close>.\<close>

definition poll_display :: "environment \<Rightarrow> 'a controller \<Rightarrow> 'a controller" where
  "poll_display env s =
     (case isChanged (display_configuration_monitor s) env of
        (changed, mon) \<Rightarrow>
          (let s1 = s\<lparr>display_configuration_monitor := mon\<rparr>
           in if changed then deinitialize s1 else s1))"

definition doDuplicate ::
  "('a, 'c, 'p) collaborators \<Rightarrow> environment \<Rightarrow> 'a controller \<Rightarrow> ('c, 'p) DxgiFrame \<Rightarrow> int \<Rightarrow>
     fault + (Result \<times> 'a controller \<times> ('c, 'p) DxgiFrame)" where
  "doDuplicate ops env s fr monitor_id =
     (case initialize ops env (poll_display env s) of
        (False, s1) \<Rightarrow>
          if succeeded_duplications s1 = 0 \<and> \<not> isCurrentSessionSupported env
          then Inr (UNSUPPORTED_SESSION, s1, fr)
          else Inr (INITIALIZATION_FAILED, s1, fr)
      | (True, s1) \<Rightarrow>
          (case fr_prepare ops fr (selectedDesktopSize ops s1 monitor_id) monitor_id of
             (False, fr1) \<Rightarrow> Inr (FRAME_PREPARE_FAILED, s1, fr1)
           | (True, fr1) \<Rightarrow>
               (let target = (frame fr1)\<lparr>updatedRegion := []\<rparr>
                in case doDuplicateUnlocked ops env s1 (frame_context fr1) monitor_id target of
                     Inl f \<Rightarrow> Inl f
                   | Inr (ok, s2, ctx2, target2) \<Rightarrow>
                       (let fr2 = fr1\<lparr>frame_context := ctx2, frame := target2\<rparr>
                        in if ok then
                             Inr (SUCCEEDED,
                                  s2\<lparr>succeeded_duplications := succeeded_duplications s2 + 1\<rparr>,
                                  fr2)
                           else if monitor_id \<ge> screenCountUnlocked ops s2 then
                             Inr (INVALID_MONITOR_ID, s2, fr2)
                           else Inr (DUPLICATION_FAILED, deinitialize s2, fr2)))))"

definition duplicate ::
  "('a, 'c, 'p) collaborators \<Rightarrow> environment \<Rightarrow> 'a controller \<Rightarrow> ('c, 'p) DxgiFrame \<Rightarrow>
     fault + (Result \<times> 'a controller \<times> ('c, 'p) DxgiFrame)" where
  "duplicate ops env s fr = doDuplicate ops env s fr (- 1)"

definition duplicateMonitor ::
  "('a, 'c, 'p) collaborators \<Rightarrow> environment \<Rightarrow> 'a controller \<Rightarrow> ('c, 'p) DxgiFrame \<Rightarrow> int \<Rightarrow>
     fault + (Result \<times> 'a controller \<times> ('c, 'p) DxgiFrame)" where
  "duplicateMonitor ops env s fr monitor_id = doDuplicate ops env s fr monitor_id"

definition isSupported ::
  "('a, 'c, 'p) collaborators \<Rightarrow> environment \<Rightarrow> 'a controller \<Rightarrow> bool \<times> 'a controller" where
  "isSupported ops env s = initialize ops env s"

definition retrieveD3dInfo ::
  "('a, 'c, 'p) collaborators \<Rightarrow> environment \<Rightarrow> 'a controller \<Rightarrow>
     (bool \<times> D3dInfo) \<times> 'a controller" where
  "retrieveD3dInfo ops env s =
     (case initialize ops env s of (result, s1) \<Rightarrow> ((result, d3d_info s1), s1))"

definition dpi ::
  "('a, 'c, 'p) collaborators \<Rightarrow> environment \<Rightarrow> 'a controller \<Rightarrow> QPoint \<times> 'a controller" where
  "dpi ops env s =
     (case initialize ops env s of
        (True, s1) \<Rightarrow> (dpi_xy s1, s1)
      | (False, s1) \<Rightarrow> (QPoint_default, s1))"

definition screenCount ::
  "('a, 'c, 'p) collaborators \<Rightarrow> environment \<Rightarrow> 'a controller \<Rightarrow> int \<times> 'a controller" where
  "screenCount ops env s =
     (case initialize ops env s of
        (True, s1) \<Rightarrow> (screenCountUnlocked ops s1, s1)
      | (False, s1) \<Rightarrow> (0, s1))"

definition deviceNames ::
  "('a, 'c, 'p) collaborators \<Rightarrow> environment \<Rightarrow> 'a controller \<Rightarrow> string list \<Rightarrow>
     (bool \<times> string list) \<times> 'a controller" where
  "deviceNames ops env s output =
     (case initialize ops env s of
        (True, s1) \<Rightarrow> ((True, deviceNamesUnlocked ops s1 output), s1)
      | (False, s1) \<Rightarrow> ((False, output), s1))"

section \<open>A simulated platform\<close>

text \<open>
  A small instance of the collaborators, on which the theorems below are exercised:
  an adapter that records its rectangles, the frames it has captured, the contexts
  registered with it and whether its duplication calls succeed.
\<close>

record sim_adapter =
  sa_rect :: QRect
  sa_screens :: "QRect list"
  sa_frames :: "64 word"
  sa_registered :: nat
  sa_healthy :: bool

definition sim_screen :: "int \<Rightarrow> QRect" where
  "sim_screen x = \<lparr>rc_x1 = x, rc_y1 = 0, rc_x2 = x + 1919, rc_y2 = 1079\<rparr>"

definition sim_probe :: "D3dDevice \<Rightarrow> sim_adapter option" where
  "sim_probe dev =
     (if adapter_luid dev = 0 then
        Some \<lparr>sa_rect = sim_screen 0, sa_screens = [sim_screen 0], sa_frames = 0,
              sa_registered = 0, sa_healthy = True\<rparr>
      else if adapter_luid dev = 1 then
        Some \<lparr>sa_rect = sim_screen (- 1920), sa_screens = [sim_screen (- 1920)], sa_frames = 0,
              sa_registered = 0, sa_healthy = True\<rparr>
      else if adapter_luid dev = 2 then
        Some \<lparr>sa_rect = sim_screen 1920, sa_screens = [sim_screen 1920], sa_frames = 0,
              sa_registered = 0, sa_healthy = False\<rparr>
      else None)"

definition sim_capture ::
  "sim_adapter \<Rightarrow> bool \<Rightarrow> nat SharedFrame \<Rightarrow> bool \<times> sim_adapter \<times> bool \<times> nat SharedFrame" where
  "sim_capture a c target =
     (if sa_healthy a
      then (True, a\<lparr>sa_frames := sa_frames a + 1\<rparr>, c, target\<lparr>pixels := pixels target + 1\<rparr>)
      else (False, a, c, target))"

definition sim_ops :: "bool \<Rightarrow> (sim_adapter, bool, nat) collaborators" where
  "sim_ops prepare_ok =
     \<lparr>ad_initialize = sim_probe,
      ad_desktopRect = sa_rect,
      ad_screenCount = (\<lambda>a. length (sa_screens a)),
      ad_screenRect = (\<lambda>a i. if 0 \<le> i \<and> nat i < length (sa_screens a)
                               then sa_screens a ! nat i else QRect_default),
      ad_deviceName = (\<lambda>a i. ''DISPLAY''),
      ad_numFramesCaptured = sa_frames,
      ad_setup = (\<lambda>a c. (a\<lparr>sa_registered := sa_registered a + 1\<rparr>, True)),
      ad_unregister = (\<lambda>a c. a\<lparr>sa_registered := sa_registered a - 1\<rparr>),
      ad_duplicate = sim_capture,
      ad_duplicateMonitor = (\<lambda>a c i target. sim_capture a c target),
      ad_translateRect =
        (\<lambda>a p. a\<lparr>sa_rect := translated (sa_rect a) p,
                  sa_screens := map (\<lambda>r. translated r p) (sa_screens a)\<rparr>),
      ctx_default = False,
      fr_prepare = (\<lambda>fr sz monitor_id. (prepare_ok, fr\<lparr>frame := (frame fr)\<lparr>frame_size := sz\<rparr>\<rparr>)),
      fr_create = (\<lambda>sz. \<lparr>frame_size = sz, frame_topLeft = QPoint_default, updatedRegion = [],
                         pixels = 0\<rparr>)\<rparr>"

definition sim_env :: "nat list \<Rightarrow> nat option \<Rightarrow> environment" where
  "sim_env luids sid =
     \<lparr>display_rect = sim_screen 0, first_poll_changed = False,
      devices = map (\<lambda>l. \<lparr>adapter_luid = l, feature_level = 45056 + int l\<rparr>) luids,
      screen_dpi = Some \<lparr>pt_x = 96, pt_y = 96\<rparr>, session_id = sid,
      clock = [0, 1, 17, 18, 34, 35, 600]\<rparr>"

definition sim_frame :: "(bool, nat) DxgiFrame" where
  "sim_frame =
     \<lparr>frame_context = \<lparr>controller_id = 0, contexts = []\<rparr>,
      frame = \<lparr>frame_size = \<lparr>sz_width = 0, sz_height = 0\<rparr>, frame_topLeft = QPoint_default,
               updatedRegion = [], pixels = 0\<rparr>\<rparr>"

section \<open>Notions the properties are stated with\<close>

text \<open>
  The adapters that initialize on a list of devices, in enumeration order, as
  \<^verbatim>\<open>doInitialize\<close> collects them before it translates them.
\<close>

fun initialized_adapters :: "('a, 'c, 'p) collaborators \<Rightarrow> D3dDevice list \<Rightarrow> 'a list" where
  "initialized_adapters ops [] = []"
| "initialized_adapters ops (dev # devs) =
     (case ad_initialize ops dev of
        None \<Rightarrow> initialized_adapters ops devs
      | Some duplicator \<Rightarrow> duplicator # initialized_adapters ops devs)"

text \<open>
  An observation \<open>g\<close> of an adapter that the capture calls of the adapter (setup,
  unregister, duplicate, duplicateMonitor) leave as it is. The spec takes the monitor
  count and the rectangles of an adapter to be fixed within a generation.
\<close>

definition preserved_by_capture :: "('a, 'c, 'p) collaborators \<Rightarrow> ('a \<Rightarrow> 'b) \<Rightarrow> bool" where
  "preserved_by_capture ops g \<longleftrightarrow>
     (\<forall>a c. g (fst (ad_setup ops a c)) = g a) \<and>
     (\<forall>a c. g (ad_unregister ops a c) = g a) \<and>
     (\<forall>a c t. g (fst (snd (ad_duplicate ops a c t))) = g a) \<and>
     (\<forall>a c i t. g (fst (snd (ad_duplicateMonitor ops a c i t))) = g a)"

text \<open>
  The rectangles of an adapter: its desktop rectangle and the rectangles of its
  monitors, in order. The adapter's \<^verbatim>\<open>translateRect\<close> is to add the offset to all of
  them (section 6 of the spec).
\<close>

definition adapter_rects :: "('a, 'c, 'p) collaborators \<Rightarrow> 'a \<Rightarrow> QRect \<times> QRect list" where
  "adapter_rects ops a =
     (ad_desktopRect ops a, map (\<lambda>i. ad_screenRect ops a (int i)) [0 ..< ad_screenCount ops a])"

definition translated_rects :: "QRect \<times> QRect list \<Rightarrow> QPoint \<Rightarrow> QRect \<times> QRect list" where
  "translated_rects g p = (translated (fst g) p, map (\<lambda>r. translated r p) (snd g))"

definition translation_applied :: "('a, 'c, 'p) collaborators \<Rightarrow> bool" where
  "translation_applied ops \<longleftrightarrow>
     (\<forall>a p. adapter_rects ops (ad_translateRect ops a p) = translated_rects (adapter_rects ops a) p)"

text \<open>
  The origin offset of a set of adapters: the point that moves the top-left corner of
  the union of their desktop rectangles to \<open>(0, 0)\<close>.
\<close>

definition origin_offset :: "('a, 'c, 'p) collaborators \<Rightarrow> 'a list \<Rightarrow> QPoint" where
  "origin_offset ops found =
     point_minus \<lparr>pt_x = 0, pt_y = 0\<rparr>
       (topLeft (united_all QRect_default (map (ad_desktopRect ops) found)))"

text \<open>
  The invariant of the desktop rectangle. Without adapters the rectangle is the empty
  default rectangle. With adapters there are devices whose initialized adapters, as
  found before the translation, account for the state: the desktop rectangle is the
  union of their desktop rectangles moved by their origin offset, and the rectangles
  of the controller's adapters are theirs, each moved by the same offset.
\<close>

definition desktop_invariant :: "('a, 'c, 'p) collaborators \<Rightarrow> 'a controller \<Rightarrow> bool" where
  "desktop_invariant ops s \<longleftrightarrow>
     (if duplicators s = [] then desktop_rect s = QRect_default
      else
        (\<exists>devs. initialized_adapters ops devs \<noteq> [] \<and>
           desktop_rect s =
             translated
               (united_all QRect_default
                  (map (ad_desktopRect ops) (initialized_adapters ops devs)))
               (origin_offset ops (initialized_adapters ops devs)) \<and>
           map (adapter_rects ops) (duplicators s) =
             map (\<lambda>a. translated_rects (adapter_rects ops a)
                         (origin_offset ops (initialized_adapters ops devs)))
               (initialized_adapters ops devs)))"

text \<open>
  The states of the controller that its public operations can produce, from the
  controller as constructed, for every environment, frame, context and monitor id.
\<close>

inductive reachable :: "('a, 'c, 'p) collaborators \<Rightarrow> 'a controller \<Rightarrow> bool"
  for ops :: "('a, 'c, 'p) collaborators" where
  r_new: "reachable ops new_controller"
| r_addRef: "reachable ops s \<Longrightarrow> reachable ops (addRef s)"
| r_release: "reachable ops s \<Longrightarrow> reachable ops (release s)"
| r_isSupported: "reachable ops s \<Longrightarrow> reachable ops (snd (isSupported ops env s))"
| r_retrieveD3dInfo: "reachable ops s \<Longrightarrow> reachable ops (snd (retrieveD3dInfo ops env s))"
| r_dpi: "reachable ops s \<Longrightarrow> reachable ops (snd (dpi ops env s))"
| r_screenCount: "reachable ops s \<Longrightarrow> reachable ops (snd (screenCount ops env s))"
| r_deviceNames: "reachable ops s \<Longrightarrow> reachable ops (snd (deviceNames ops env s output))"
| r_duplicate:
    "reachable ops s \<Longrightarrow> duplicate ops env s fr = Inr (r, s1, fr1) \<Longrightarrow> reachable ops s1"
| r_duplicateMonitor:
    "reachable ops s \<Longrightarrow> 0 \<le> monitor_id \<Longrightarrow>
     duplicateMonitor ops env s fr monitor_id = Inr (r, s1, fr1) \<Longrightarrow> reachable ops s1"
| r_unload: "reachable ops s \<Longrightarrow> reachable ops (unload s)"
| r_unregister: "reachable ops s \<Longrightarrow> reachable ops (unregister ops s ctx)"



text \<open>
  A number of full-desktop duplications in a row, each on the state the one before
  left, stopping at the first that fails.
\<close>

fun doDuplicateAll_rounds ::
  "('a, 'c, 'p) collaborators \<Rightarrow> nat \<Rightarrow> 'a controller \<Rightarrow> 'c Context \<Rightarrow> 'p SharedFrame \<Rightarrow>
     fault + (bool \<times> 'a controller \<times> 'c Context \<times> 'p SharedFrame)" where
  "doDuplicateAll_rounds ops 0 s ctx target = Inr (True, s, ctx, target)"
| "doDuplicateAll_rounds ops (Suc n) s ctx target =
     (case doDuplicateAll ops s ctx target of
        Inl f \<Rightarrow> Inl f
      | Inr (ok, s1, ctx1, target1) \<Rightarrow>
          if ok then doDuplicateAll_rounds ops n s1 ctx1 target1
          else Inr (False, s1, ctx1, target1))"

text \<open>
  The resolution of a flat monitor id in the words of the spec: walk the adapters in
  order, subtracting each adapter's monitor count from the id until the id is less
  than the count of the current adapter; the result is the index of that adapter and
  the remainder.
\<close>

fun resolve_monitor :: "nat list \<Rightarrow> int \<Rightarrow> (nat \<times> int) option" where
  "resolve_monitor [] m = None"
| "resolve_monitor (n # ns) m =
     (if m < int n then Some (0, m)
      else (case resolve_monitor ns (m - int n) of
              None \<Rightarrow> None
            | Some (i, r) \<Rightarrow> Some (Suc i, r)))"

text \<open>
  The feature levels \<^verbatim>\<open>doInitialize\<close> records from a list of levels, in order.
\<close>

fun recorded_levels :: "D3dInfo \<Rightarrow> int list \<Rightarrow> D3dInfo" where
  "recorded_levels info [] = info"
| "recorded_levels info (fl # fls) = recorded_levels (record_feature_level fl info) fls"

text \<open>
  What the capture calls may do to the controller: they change the states of the
  adapters, not their number, and nothing else.
\<close>

definition adapters_advanced :: "'a controller \<Rightarrow> 'a controller \<Rightarrow> bool" where
  "adapters_advanced s s1 \<longleftrightarrow>
     s1 = s\<lparr>duplicators := duplicators s1\<rparr> \<and> length (duplicators s1) = length (duplicators s)"

section \<open>Teardown\<close>

lemma deinitialize_fields [simp]:
  "duplicators (deinitialize s) = []"
  "desktop_rect (deinitialize s) = QRect_default"
  "display_configuration_monitor (deinitialize s) = None"
  "identity (deinitialize s) = identity s"
  "succeeded_duplications (deinitialize s) = succeeded_duplications s"
  "dpi_xy (deinitialize s) = dpi_xy s"
  "d3d_info (deinitialize s) = d3d_info s"
  "refcount (deinitialize s) = refcount s"
  by (simp_all add: deinitialize_def)

lemma isEmpty_default [simp]: "isEmpty QRect_default"
  by (simp add: isEmpty_def QRect_default_def)

lemma poll_display_fields [simp]:
  "identity (poll_display env s) = identity s"
  "succeeded_duplications (poll_display env s) = succeeded_duplications s"
  "dpi_xy (poll_display env s) = dpi_xy s"
  "d3d_info (poll_display env s) = d3d_info s"
  "refcount (poll_display env s) = refcount s"
  by (simp_all add: poll_display_def Let_def split: prod.splits)

section \<open>Initialization\<close>

lemma doInitialize_loop_fields [simp]:
  "identity (doInitialize_loop ops devs s) = identity s"
  "succeeded_duplications (doInitialize_loop ops devs s) = succeeded_duplications s"
  "dpi_xy (doInitialize_loop ops devs s) = dpi_xy s"
  "display_configuration_monitor (doInitialize_loop ops devs s) = display_configuration_monitor s"
  "refcount (doInitialize_loop ops devs s) = refcount s"
  by (induction ops devs s rule: doInitialize_loop.induct; simp add: Let_def split: option.splits)+

lemma doInitialize_loop_duplicators:
  "duplicators (doInitialize_loop ops devs s) = duplicators s @ initialized_adapters ops devs"
  by (induction ops devs s rule: doInitialize_loop.induct) (simp_all add: Let_def split: option.splits)

lemma doInitialize_loop_desktop_rect:
  "desktop_rect (doInitialize_loop ops devs s) =
     united_all (desktop_rect s) (map (ad_desktopRect ops) (initialized_adapters ops devs))"
  by (induction ops devs s rule: doInitialize_loop.induct) (simp_all add: Let_def split: option.splits)

lemma doInitialize_loop_d3d_info:
  "d3d_info (doInitialize_loop ops devs s) = recorded_levels (d3d_info s) (map feature_level devs)"
  by (induction ops devs s rule: doInitialize_loop.induct) (simp_all add: Let_def split: option.splits)

lemma translateRect_fields [simp]:
  "identity (translateRect ops s) = identity s"
  "succeeded_duplications (translateRect ops s) = succeeded_duplications s"
  "dpi_xy (translateRect ops s) = dpi_xy s"
  "d3d_info (translateRect ops s) = d3d_info s"
  "display_configuration_monitor (translateRect ops s) = display_configuration_monitor s"
  "refcount (translateRect ops s) = refcount s"
  "duplicators (translateRect ops s) =
     map (\<lambda>d. ad_translateRect ops d (point_minus \<lparr>pt_x = 0, pt_y = 0\<rparr> (topLeft (desktop_rect s))))
       (duplicators s)"
  "desktop_rect (translateRect ops s) =
     translated (desktop_rect s) (point_minus \<lparr>pt_x = 0, pt_y = 0\<rparr> (topLeft (desktop_rect s)))"
  by (simp_all add: translateRect_def Let_def)

lemma doInitialize_fields [simp]:
  "succeeded_duplications (snd (doInitialize ops env s)) = succeeded_duplications s"
  "display_configuration_monitor (snd (doInitialize ops env s)) = display_configuration_monitor s"
  "refcount (snd (doInitialize ops env s)) = refcount s"
  by (simp_all add: doInitialize_def Let_def split: option.splits)

lemma initialize_fields [simp]:
  "succeeded_duplications (snd (initialize ops env s)) = succeeded_duplications s"
  "refcount (snd (initialize ops env s)) = refcount s"
  by (simp_all add: initialize_def split: prod.splits bool.splits)
    (metis doInitialize_fields snd_conv)+

lemma initialize_failed_state:
  "\<not> fst (initialize ops env s) \<Longrightarrow>
     duplicators (snd (initialize ops env s)) = [] \<and>
     desktop_rect (snd (initialize ops env s)) = QRect_default \<and>
     display_configuration_monitor (snd (initialize ops env s)) = None"
  by (auto simp: initialize_def split: prod.splits bool.splits if_splits)


text \<open>
  C1. When the initialization of a \<^verbatim>\<open>duplicate\<close> or \<^verbatim>\<open>duplicateMonitor\<close> call fails,
  the call returns \<open>UNSUPPORTED_SESSION\<close> exactly when no duplication has succeeded
  before the call and the session probe says the session is not supported; in every
  other case of a failed initialization it returns \<open>INITIALIZATION_FAILED\<close>, whatever
  the session is.
\<close>

theorem C1_initialization_failure_result:
  assumes "\<not> fst (initialize ops env (poll_display env s))"
  shows "duplicateMonitor ops env s fr monitor_id =
           Inr (if succeeded_duplications s = 0 \<and> \<not> isCurrentSessionSupported env
                then UNSUPPORTED_SESSION else INITIALIZATION_FAILED,
                snd (initialize ops env (poll_display env s)), fr) \<and>
         duplicate ops env s fr =
           Inr (if succeeded_duplications s = 0 \<and> \<not> isCurrentSessionSupported env
                then UNSUPPORTED_SESSION else INITIALIZATION_FAILED,
                snd (initialize ops env (poll_display env s)), fr)"
proof -
  obtain s1 where init: "initialize ops env (poll_display env s) = (False, s1)"
    using assms by (cases "initialize ops env (poll_display env s)") auto
  have "succeeded_duplications s1 = succeeded_duplications s"
    using initialize_fields(1) [of ops env "poll_display env s"] init by simp
  then show ?thesis
    by (simp add: duplicateMonitor_def duplicate_def doDuplicate_def init)
qed

theorem C1_witness:
  "\<not> fst (initialize (sim_ops True) (sim_env [3] (Some 0))
            (poll_display (sim_env [3] (Some 0)) new_controller)) \<and>
   map_sum id fst (duplicateMonitor (sim_ops True) (sim_env [3] (Some 0)) new_controller sim_frame 0)
     = Inr UNSUPPORTED_SESSION \<and>
   map_sum id fst (duplicate (sim_ops True) (sim_env [3] (Some 0)) new_controller sim_frame)
     = Inr UNSUPPORTED_SESSION"
proof -
  have h: "\<not> fst (initialize (sim_ops True) (sim_env [3] (Some 0))
            (poll_display (sim_env [3] (Some 0)) new_controller))"
    by code_simp
  have c: "succeeded_duplications (new_controller :: sim_adapter controller) = 0"
    "\<not> isCurrentSessionSupported (sim_env [3] (Some 0))"
    by (simp_all add: new_controller_def isCurrentSessionSupported_def sim_env_def)
  show ?thesis
    using h C1_initialization_failure_result [OF h, of sim_frame 0] c by simp
qed

section \<open>Results of a duplication call\<close>

text \<open>
  C2. A call that returns \<open>DUPLICATION_FAILED\<close> has deinitialized the controller
  before returning: the adapters are gone, the desktop rectangle is the empty default
  rectangle and the display-change probe is reset. Its initialization had succeeded,
  and the initialization step of the next call, in any environment, runs
  \<^verbatim>\<open>doInitialize\<close> again.
\<close>

theorem C2_duplication_failed_deinitializes:
  assumes "doDuplicate ops env s fr monitor_id = Inr (DUPLICATION_FAILED, s1, fr1)"
  shows "duplicators s1 = [] \<and> desktop_rect s1 = QRect_default \<and> isEmpty (desktop_rect s1) \<and>
         display_configuration_monitor s1 = None \<and>
         fst (initialize ops env (poll_display env s)) \<and>
         (\<forall>env1. initialize ops env1 (poll_display env1 s1) =
            (if fst (doInitialize ops env1 (poll_display env1 s1))
             then doInitialize ops env1 (poll_display env1 s1)
             else (False, deinitialize (snd (doInitialize ops env1 (poll_display env1 s1))))))"
proof -
  have a: "duplicators s1 = [] \<and> desktop_rect s1 = QRect_default \<and>
         display_configuration_monitor s1 = None \<and>
         fst (initialize ops env (poll_display env s))"
    using assms
    by (auto simp: doDuplicate_def Let_def split: prod.splits bool.splits sum.splits if_splits)
  have "duplicators (poll_display env1 s1) = []" for env1
    using a by (simp add: poll_display_def Let_def split: prod.splits)
  then show ?thesis using a
    by (auto simp: initialize_def split: prod.splits bool.splits)
qed

theorem C2_witness:
  "map_sum id fst (doDuplicate (sim_ops True) (sim_env [0, 2] (Some 1)) new_controller sim_frame 0)
     = Inr DUPLICATION_FAILED \<and>
   duplicators (fst (snd (projr
     (doDuplicate (sim_ops True) (sim_env [0, 2] (Some 1)) new_controller sim_frame 0)))) = [] \<and>
   display_configuration_monitor (fst (snd (projr
     (doDuplicate (sim_ops True) (sim_env [0, 2] (Some 1)) new_controller sim_frame 0)))) = None"
proof -
  let ?call = "doDuplicate (sim_ops True) (sim_env [0, 2] (Some 1)) new_controller sim_frame 0"
  have h: "?call = Inr (DUPLICATION_FAILED, fst (snd (projr ?call)), snd (snd (projr ?call)))"
    by code_simp
  show ?thesis
    using C2_duplication_failed_deinitializes [OF h] h
    by (metis fst_conv map_sum.simps(2))
qed

section \<open>A failed initialization\<close>

lemma recorded_levels_positive:
  "0 < m \<Longrightarrow> 0 < M \<Longrightarrow> \<forall>fl\<in>set fls. 0 < fl \<Longrightarrow>
     recorded_levels \<lparr>min_feature_level = m, max_feature_level = M\<rparr> fls =
       \<lparr>min_feature_level = fold min fls m, max_feature_level = fold max fls M\<rparr>"
proof (induction fls arbitrary: m M)
  case Nil
  then show ?case by simp
next
  case (Cons fl fls)
  have step: "record_feature_level fl \<lparr>min_feature_level = m, max_feature_level = M\<rparr> =
      \<lparr>min_feature_level = min fl m, max_feature_level = max fl M\<rparr>"
    using Cons.prems by (auto simp: record_feature_level_def Let_def)
  have "0 < min fl m" "0 < max fl M"
    using Cons.prems by auto
  then show ?case
    using Cons.IH [of "min fl m" "max fl M"] Cons.prems step by simp
qed

lemma recorded_levels_from_zero:
  assumes "fls \<noteq> []" and "\<forall>fl\<in>set fls. 0 < fl"
  shows "recorded_levels \<lparr>min_feature_level = 0, max_feature_level = 0\<rparr> fls =
           \<lparr>min_feature_level = Min (set fls), max_feature_level = Max (set fls)\<rparr>"
proof -
  obtain fl rest where fls: "fls = fl # rest"
    using assms(1) by (cases fls) auto
  have pos: "0 < fl" "\<forall>x\<in>set rest. 0 < x"
    using assms(2) fls by auto
  have "record_feature_level fl \<lparr>min_feature_level = 0, max_feature_level = 0\<rparr> =
      \<lparr>min_feature_level = fl, max_feature_level = fl\<rparr>"
    by (simp add: record_feature_level_def Let_def)
  then have "recorded_levels \<lparr>min_feature_level = 0, max_feature_level = 0\<rparr> fls =
      \<lparr>min_feature_level = fold min rest fl, max_feature_level = fold max rest fl\<rparr>"
    using recorded_levels_positive [OF pos(1) pos(1) pos(2)] fls by simp
  then show ?thesis
    using Min.set_eq_fold [of fl rest] Max.set_eq_fold [of fl rest] by (simp add: fls)
qed

lemma initialized_adapters_none:
  "\<forall>d\<in>set devs. ad_initialize ops d = None \<Longrightarrow> initialized_adapters ops devs = []"
  by (induction devs) auto

text \<open>
  C4, as the code has it. When the devices are enumerated and no adapter duplicator
  initializes, \<^verbatim>\<open>initialize\<close> deinitializes and fails: the adapters and the desktop
  rectangle are empty and the display-change probe is reset. The identity has been
  incremented by one all the same, and the feature-level fields are not cleaned up:
  they hold what the loop recorded from the enumerated devices, the smallest and the
  largest level when all levels are positive.
\<close>

theorem C4_failed_initialization_state:
  assumes "duplicators s = []" and "devices env \<noteq> []"
    and "\<forall>d\<in>set (devices env). ad_initialize ops d = None"
  shows "\<not> fst (initialize ops env s) \<and>
         duplicators (snd (initialize ops env s)) = [] \<and>
         desktop_rect (snd (initialize ops env s)) = QRect_default \<and>
         isEmpty (desktop_rect (snd (initialize ops env s))) \<and>
         display_configuration_monitor (snd (initialize ops env s)) = None \<and>
         identity (snd (initialize ops env s)) = identity s + 1 \<and>
         d3d_info (snd (initialize ops env s)) =
           recorded_levels \<lparr>min_feature_level = 0, max_feature_level = 0\<rparr>
             (map feature_level (devices env)) \<and>
         ((\<forall>d\<in>set (devices env). 0 < feature_level d) \<longrightarrow>
            min_feature_level (d3d_info (snd (initialize ops env s))) =
              Min (feature_level ` set (devices env)) \<and>
            max_feature_level (d3d_info (snd (initialize ops env s))) =
              Max (feature_level ` set (devices env)))"
proof -
  have none: "initialized_adapters ops (devices env) = []"
    using assms(3) by (rule initialized_adapters_none)
  let ?s1 = "s\<lparr>d3d_info := \<lparr>min_feature_level = 0, max_feature_level = 0\<rparr>\<rparr>"
  have dups: "duplicators (doInitialize_loop ops (devices env) ?s1) = []"
    using assms(1) none by (simp add: doInitialize_loop_duplicators)
  have fail: "\<not> fst (doInitialize ops env s)"
    using assms(2) dups by (simp add: doInitialize_def Let_def split: option.splits)
  have ident: "identity (snd (doInitialize ops env s)) = identity s + 1"
    using assms(2) by (simp add: doInitialize_def Let_def split: option.splits)
  have info: "d3d_info (snd (doInitialize ops env s)) =
      recorded_levels \<lparr>min_feature_level = 0, max_feature_level = 0\<rparr>
        (map feature_level (devices env))"
    using assms(2)
    by (simp add: doInitialize_def Let_def doInitialize_loop_d3d_info split: option.splits)
  have init: "initialize ops env s = (False, deinitialize (snd (doInitialize ops env s)))"
    using assms(1) fail by (cases "doInitialize ops env s") (simp add: initialize_def)
  have levels: "recorded_levels \<lparr>min_feature_level = 0, max_feature_level = 0\<rparr>
        (map feature_level (devices env)) =
      \<lparr>min_feature_level = Min (feature_level ` set (devices env)),
       max_feature_level = Max (feature_level ` set (devices env))\<rparr>"
    if "\<forall>d\<in>set (devices env). 0 < feature_level d"
    using recorded_levels_from_zero [of "map feature_level (devices env)"] assms(2) that
    by simp
  show ?thesis
    using ident info levels by (simp add: init)
qed

theorem C4_witness:
  "duplicators (new_controller :: sim_adapter controller) = [] \<and>
   devices (sim_env [3, 4] None) \<noteq> [] \<and>
   \<not> fst (initialize (sim_ops True) (sim_env [3, 4] None) new_controller) \<and>
   identity (snd (initialize (sim_ops True) (sim_env [3, 4] None) new_controller)) = 1 \<and>
   min_feature_level
     (d3d_info (snd (initialize (sim_ops True) (sim_env [3, 4] None) new_controller))) = 45059 \<and>
   max_feature_level
     (d3d_info (snd (initialize (sim_ops True) (sim_env [3, 4] None) new_controller))) = 45060"
proof -
  have a: "duplicators (new_controller :: sim_adapter controller) = []"
    by (simp add: new_controller_def)
  have b: "devices (sim_env [3, 4] None) \<noteq> []"
    by (simp add: sim_env_def)
  have c: "\<forall>d\<in>set (devices (sim_env [3, 4] None)). ad_initialize (sim_ops True) d = None"
    by (simp add: sim_env_def sim_ops_def sim_probe_def)
  have d: "\<forall>d\<in>set (devices (sim_env [3, 4] None)). 0 < feature_level d"
    by (simp add: sim_env_def)
  have e: "identity (new_controller :: sim_adapter controller) = 0"
    by (simp add: new_controller_def)
  have f: "Min (feature_level ` set (devices (sim_env [3, 4] None))) = 45059"
    "Max (feature_level ` set (devices (sim_env [3, 4] None))) = 45060"
    by (simp_all add: sim_env_def)
  note t = C4_failed_initialization_state [OF a b c]
  from t d have
    "min_feature_level
       (d3d_info (snd (initialize (sim_ops True) (sim_env [3, 4] None) new_controller))) =
     Min (feature_level ` set (devices (sim_env [3, 4] None))) \<and>
     max_feature_level
       (d3d_info (snd (initialize (sim_ops True) (sim_env [3, 4] None) new_controller))) =
     Max (feature_level ` set (devices (sim_env [3, 4] None)))"
    by blast
  with f t a b e show ?thesis
    by simp
qed

text \<open>
  C4 as stated fails on one device whose adapter does not initialize: the identity
  goes from 0 to 1 and both feature-level fields keep the level of the device.
\<close>

theorem C4_counterexample:
  "devices (sim_env [3] None) \<noteq> [] \<and>
   map (ad_initialize (sim_ops True)) (devices (sim_env [3] None)) = [None] \<and>
   \<not> fst (initialize (sim_ops True) (sim_env [3] None) (new_controller :: sim_adapter controller)) \<and>
   identity (new_controller :: sim_adapter controller) = 0 \<and>
   identity (snd (initialize (sim_ops True) (sim_env [3] None)
               (new_controller :: sim_adapter controller))) = 1 \<and>
   d3d_info (snd (initialize (sim_ops True) (sim_env [3] None)
               (new_controller :: sim_adapter controller))) =
     \<lparr>min_feature_level = 45059, max_feature_level = 45059\<rparr>"
  by code_simp

section \<open>The loops over the adapters\<close>

lemma setup_loop_length:
  "setup_loop ops ds = (ds1, cs1) \<Longrightarrow> length ds1 = length ds \<and> length cs1 = length ds"
  by (induction ds arbitrary: ds1 cs1) (auto split: prod.splits)

lemma setup_loop_observed:
  "preserved_by_capture ops g \<Longrightarrow> setup_loop ops ds = (ds1, cs1) \<Longrightarrow> map g ds1 = map g ds"
proof (induction ds arbitrary: ds1 cs1)
  case Nil
  then show ?case by simp
next
  case (Cons d ds)
  obtain d1 c1 where h: "ad_setup ops d (ctx_default ops) = (d1, c1)"
    by (cases "ad_setup ops d (ctx_default ops)")
  obtain ds2 cs2 where t: "setup_loop ops ds = (ds2, cs2)"
    by (cases "setup_loop ops ds")
  have "g d1 = g d"
    using Cons.prems(1) h unfolding preserved_by_capture_def by (metis fst_conv)
  then show ?case
    using Cons.IH [OF Cons.prems(1) t] Cons.prems(2) h t by auto
qed

lemma unregister_loop_length: "length (unregister_loop ops ds cs) = length ds"
  by (induction ops ds cs rule: unregister_loop.induct) auto

lemma unregister_loop_observed:
  "preserved_by_capture ops g \<Longrightarrow> map g (unregister_loop ops ds cs) = map g ds"
  by (induction ops ds cs rule: unregister_loop.induct) (auto simp: preserved_by_capture_def)

lemma unregister_loop_nth:
  "length cs = length ds \<Longrightarrow> i < length ds \<Longrightarrow>
     unregister_loop ops ds cs ! i = ad_unregister ops (ds ! i) (cs ! i)"
proof (induction ops ds cs arbitrary: i rule: unregister_loop.induct)
  case (2 ops d ds c cs)
  then show ?case by (cases i) auto
qed auto

lemma doDuplicateAll_loop_length:
  "doDuplicateAll_loop ops ds cs t = (r, ds1, cs1, t1) \<Longrightarrow>
     length ds1 = length ds \<and> length cs1 = length cs"
proof (induction ops ds cs t arbitrary: r ds1 cs1 t1 rule: doDuplicateAll_loop.induct)
  case (2 ops d ds c cs target)
  then show ?case
    by (auto split: prod.splits if_splits)
qed auto

lemma doDuplicateAll_loop_observed:
  "preserved_by_capture ops g \<Longrightarrow> doDuplicateAll_loop ops ds cs t = (r, ds1, cs1, t1) \<Longrightarrow>
     map g ds1 = map g ds"
proof (induction ops ds cs t arbitrary: r ds1 cs1 t1 rule: doDuplicateAll_loop.induct)
  case (2 ops d ds c cs target)
  obtain ok d2 c2 t2 where h: "ad_duplicate ops d c target = (ok, d2, c2, t2)"
    by (cases "ad_duplicate ops d c target")
  have gd: "g d2 = g d"
    using "2.prems"(1) h unfolding preserved_by_capture_def by (metis fst_conv snd_conv)
  show ?case
  proof (cases ok)
    case False
    then show ?thesis using "2.prems"(2) h gd by auto
  next
    case True
    obtain r3 ds3 cs3 t3 where t: "doDuplicateAll_loop ops ds cs t2 = (r3, ds3, cs3, t3)"
      by (cases "doDuplicateAll_loop ops ds cs t2")
    have "map g ds3 = map g ds"
      using "2.IH" [OF h [symmetric] refl refl _ "2.prems"(1) t] True by simp
    then show ?thesis using "2.prems"(2) h gd t True by auto
  qed
qed auto

lemma doDuplicateOne_loop_length:
  "doDuplicateOne_loop ops ds cs m t = (r, ds1, cs1, t1) \<Longrightarrow>
     length ds1 = length ds \<and> length cs1 = length cs"
proof (induction ops ds cs m t arbitrary: r ds1 cs1 t1 rule: doDuplicateOne_loop.induct)
  case (1 ops d ds c cs monitor_id target)
  then show ?case
    by (auto split: prod.splits if_splits)
qed auto

lemma doDuplicateOne_loop_observed:
  "preserved_by_capture ops g \<Longrightarrow> doDuplicateOne_loop ops ds cs m t = (r, ds1, cs1, t1) \<Longrightarrow>
     map g ds1 = map g ds"
proof (induction ops ds cs m t arbitrary: r ds1 cs1 t1 rule: doDuplicateOne_loop.induct)
  case (1 ops d ds c cs monitor_id target)
  show ?case
  proof (cases "monitor_id \<ge> int (ad_screenCount ops d)")
    case True
    then show ?thesis
      using "1.IH" "1.prems" by (auto split: prod.splits)
  next
    case False
    obtain ok d2 c2 t2 where h: "ad_duplicateMonitor ops d c monitor_id target = (ok, d2, c2, t2)"
      by (cases "ad_duplicateMonitor ops d c monitor_id target")
    have gd: "g d2 = g d"
      using "1.prems"(1) h unfolding preserved_by_capture_def by (metis fst_conv snd_conv)
    show ?thesis using "1.prems"(2) h gd False by (auto split: if_splits)
  qed
qed auto

section \<open>Capture steps on the controller\<close>

lemma adapters_advanced_refl [simp]: "adapters_advanced s s"
  by (simp add: adapters_advanced_def)

lemma adapters_advanced_trans:
  "adapters_advanced s s1 \<Longrightarrow> adapters_advanced s1 s2 \<Longrightarrow> adapters_advanced s s2"
  unfolding adapters_advanced_def
  by (metis (no_types, lifting) controller.surjective controller.update_convs(5))

lemma adapters_advanced_fields:
  "adapters_advanced s s1 \<Longrightarrow>
     identity s1 = identity s \<and> desktop_rect s1 = desktop_rect s \<and> dpi_xy s1 = dpi_xy s \<and>
     d3d_info s1 = d3d_info s \<and> refcount s1 = refcount s \<and>
     display_configuration_monitor s1 = display_configuration_monitor s \<and>
     succeeded_duplications s1 = succeeded_duplications s \<and>
     length (duplicators s1) = length (duplicators s)"
  unfolding adapters_advanced_def
  by (metis controller.select_convs controller.surjective controller.update_convs(5))

lemma setup_context_advanced:
  "setup_context ops s ctx = (s1, ctx1) \<Longrightarrow>
     adapters_advanced s s1 \<and> \<not> contextExpired s1 ctx1"
  by (auto simp: setup_context_def adapters_advanced_def contextExpired_def
      split: if_splits prod.splits dest: setup_loop_length)

lemma setup_context_observed:
  "preserved_by_capture ops g \<Longrightarrow> setup_context ops s ctx = (s1, ctx1) \<Longrightarrow>
     map g (duplicators s1) = map g (duplicators s)"
  by (auto simp: setup_context_def split: if_splits prod.splits dest: setup_loop_observed)


lemma doDuplicateAll_advanced:
  "doDuplicateAll ops s ctx t = Inr (r, s1, ctx1, t1) \<Longrightarrow>
     adapters_advanced s s1 \<and> length (contexts ctx1) = length (contexts ctx) \<and>
     controller_id ctx1 = controller_id ctx"
  by (auto simp: doDuplicateAll_def adapters_advanced_def split: if_splits prod.splits
      dest: doDuplicateAll_loop_length)

lemma doDuplicateAll_observed:
  "preserved_by_capture ops g \<Longrightarrow> doDuplicateAll ops s ctx t = Inr (r, s1, ctx1, t1) \<Longrightarrow>
     map g (duplicators s1) = map g (duplicators s)"
  by (auto simp: doDuplicateAll_def split: if_splits prod.splits
      dest: doDuplicateAll_loop_observed)

lemma doDuplicateOne_advanced:
  "doDuplicateOne ops s ctx m t = (r, s1, ctx1, t1) \<Longrightarrow>
     adapters_advanced s s1 \<and> length (contexts ctx1) = length (contexts ctx) \<and>
     controller_id ctx1 = controller_id ctx"
  by (auto simp: doDuplicateOne_def adapters_advanced_def split: if_splits prod.splits
      dest: doDuplicateOne_loop_length)

lemma doDuplicateOne_observed:
  "preserved_by_capture ops g \<Longrightarrow> doDuplicateOne ops s ctx m t = (r, s1, ctx1, t1) \<Longrightarrow>
     map g (duplicators s1) = map g (duplicators s)"
  by (auto simp: doDuplicateOne_def split: if_splits prod.splits
      dest: doDuplicateOne_loop_observed)

section \<open>The warm-up loop\<close>

text \<open>
  The loop with the sleep removed: within the loop fewer than one frame is captured,
  so the sleep, which needs more than none, is never taken.
\<close>

lemma ensureFrameCaptured_loop_unfold:
  "ensureFrameCaptured_loop ops start_ms clk s ctx sh =
     (if numFramesCaptured ops s < 1 then
        (case clk of
           [] \<Rightarrow> Inl ClockExhausted
         | last_frame_start_ms # clk2 \<Rightarrow>
             (case doDuplicateAll ops s ctx sh of
                Inl f \<Rightarrow> Inl f
              | Inr (ok, s1, ctx1, sh1) \<Rightarrow>
                  if \<not> ok then Inr (False, s1, ctx1, sh1)
                  else
                    (case clk2 of
                       [] \<Rightarrow> Inl ClockExhausted
                     | now # clk3 \<Rightarrow>
                         if now - start_ms > 500 then Inr (False, s1, ctx1, sh1)
                         else ensureFrameCaptured_loop ops start_ms clk3 s1 ctx1 sh1)))
      else Inr (True, s, ctx, sh))"
  by (subst ensureFrameCaptured_loop.simps)
    (auto simp: frames_to_skip_def timeout_ms_def split: list.splits sum.splits prod.splits)

lemma ensureFrameCaptured_loop_rule:
  assumes step: "\<And>s ctx sh ok s1 ctx1 sh1.
      P s ctx \<Longrightarrow> doDuplicateAll ops s ctx sh = Inr (ok, s1, ctx1, sh1) \<Longrightarrow> P s1 ctx1"
    and "P s ctx"
    and "ensureFrameCaptured_loop ops start_ms clk s ctx sh = Inr (r, s1, ctx1, sh1)"
  shows "P s1 ctx1"
  using assms(2,3)
proof (induction "length clk" arbitrary: clk s ctx sh rule: less_induct)
  case less
  show ?case
  proof (cases "numFramesCaptured ops s < 1")
    case False
    then show ?thesis
      using less.prems by (subst (asm) ensureFrameCaptured_loop_unfold) simp
  next
    case True
    from less.prems(2) True obtain l clk2 ok s2 ctx2 sh2 where
      clk: "clk = l # clk2" and dup: "doDuplicateAll ops s ctx sh = Inr (ok, s2, ctx2, sh2)"
      by (subst (asm) ensureFrameCaptured_loop_unfold)
        (auto split: list.splits sum.splits prod.splits)
    have P2: "P s2 ctx2"
      using step [OF less.prems(1) dup] .
    show ?thesis
    proof (cases ok)
      case False
      then show ?thesis
        using less.prems(2) True clk dup P2
        by (subst (asm) ensureFrameCaptured_loop_unfold) simp
    next
      case ok: True
      from less.prems(2) True clk dup ok obtain now clk3 where clk2: "clk2 = now # clk3"
        by (subst (asm) ensureFrameCaptured_loop_unfold) (auto split: list.splits)
      show ?thesis
      proof (cases "now - start_ms > 500")
        case True
        then show ?thesis
          using less.prems(2) \<open>numFramesCaptured ops s < 1\<close> clk dup ok clk2 P2
          by (subst (asm) ensureFrameCaptured_loop_unfold) simp
      next
        case False
        have rec: "ensureFrameCaptured_loop ops start_ms clk3 s2 ctx2 sh2 = Inr (r, s1, ctx1, sh1)"
          using less.prems(2) \<open>numFramesCaptured ops s < 1\<close> clk dup ok clk2 False
          by (subst (asm) ensureFrameCaptured_loop_unfold) simp
        show ?thesis
          using less.hyps [of clk3 s2 ctx2 sh2] P2 rec clk clk2 by simp
      qed
    qed
  qed
qed

lemma ensureFrameCaptured_loop_advanced:
  assumes "ensureFrameCaptured_loop ops start_ms clk s ctx sh = Inr (r, s1, ctx1, sh1)"
  shows "adapters_advanced s s1 \<and> length (contexts ctx1) = length (contexts ctx) \<and>
         controller_id ctx1 = controller_id ctx"
proof -
  let ?P = "\<lambda>s2 ctx2. adapters_advanced s s2 \<and> length (contexts ctx2) = length (contexts ctx) \<and>
         controller_id ctx2 = controller_id ctx"
  have "?P s1 ctx1"
  proof (rule ensureFrameCaptured_loop_rule [where P = ?P, OF _ _ assms])
    show "?P s ctx" by simp
  next
    fix s2 ctx2 sh2 ok s3 ctx3 sh3
    assume "?P s2 ctx2" and "doDuplicateAll ops s2 ctx2 sh2 = Inr (ok, s3, ctx3, sh3)"
    then show "?P s3 ctx3"
      using doDuplicateAll_advanced adapters_advanced_trans by metis
  qed
  then show ?thesis .
qed

lemma ensureFrameCaptured_loop_observed:
  fixes ops :: "('a, 'c, 'p) collaborators"
  assumes "preserved_by_capture ops g"
    and "ensureFrameCaptured_loop ops start_ms clk s ctx sh = Inr (r, s1, ctx1, sh1)"
  shows "map g (duplicators s1) = map g (duplicators s)"
proof -
  let ?P = "\<lambda>s2 (ctx2 :: 'c Context). map g (duplicators s2) = map g (duplicators s)"
  have "?P s1 ctx1"
  proof (rule ensureFrameCaptured_loop_rule [where P = ?P, OF _ _ assms(2)])
    show "?P s ctx" by simp
  next
    fix s2 ctx2 sh2 ok s3 ctx3 sh3
    assume "?P s2 ctx2" and "doDuplicateAll ops s2 ctx2 sh2 = Inr (ok, s3, ctx3, sh3)"
    then show "?P s3 ctx3"
      using doDuplicateAll_observed [OF assms(1)] by metis
  qed
  then show ?thesis .
qed



lemma ensureFrameCaptured_cold:
  assumes "\<not> frames_to_skip \<le> numFramesCaptured ops s"
    and "ensureFrameCaptured ops env s ctx t = Inr (r, s1, ctx1, t1)"
  shows "\<exists>start_ms clk sh sh1. clock env = start_ms # clk \<and>
           ensureFrameCaptured_loop ops start_ms clk s ctx sh = Inr (r, s1, ctx1, sh1)"
proof -
  obtain start_ms clk where clk: "clock env = start_ms # clk"
    using assms by (cases "clock env") (auto simp: ensureFrameCaptured_def Let_def)
  let ?use = "sz_width (frame_size t) \<ge> sz_width (desktopSize s) \<and>
                sz_height (frame_size t) \<ge> sz_height (desktopSize s)"
  let ?sh = "if ?use then t else fr_create ops (desktopSize s)"
  have unfold: "ensureFrameCaptured ops env s ctx t =
      (case ensureFrameCaptured_loop ops start_ms clk s ctx ?sh of
         Inl f \<Rightarrow> Inl f
       | Inr (r, s1, ctx1, sh1) \<Rightarrow> Inr (r, s1, ctx1, if ?use then sh1 else t))"
    using assms(1) clk by (simp add: ensureFrameCaptured_def Let_def)
  obtain x where lp: "ensureFrameCaptured_loop ops start_ms clk s ctx ?sh = Inr x"
    using assms(2) unfolding unfold
    by (cases "ensureFrameCaptured_loop ops start_ms clk s ctx ?sh") simp_all
  obtain r2 s2 ctx2 sh2 where x: "x = (r2, s2, ctx2, sh2)"
    by (cases x)
  have "r2 = r \<and> s2 = s1 \<and> ctx2 = ctx1"
    using assms(2) unfolding unfold lp x by simp
  then show ?thesis
    using clk lp x by blast
qed

lemma ensureFrameCaptured_advanced:
  assumes "ensureFrameCaptured ops env s ctx t = Inr (r, s1, ctx1, t1)"
  shows "adapters_advanced s s1 \<and> length (contexts ctx1) = length (contexts ctx) \<and>
     controller_id ctx1 = controller_id ctx"
proof (cases "frames_to_skip \<le> numFramesCaptured ops s")
  case True
  then show ?thesis using assms by (simp add: ensureFrameCaptured_def)
next
  case False
  obtain start_ms clk sh sh1 where
    "ensureFrameCaptured_loop ops start_ms clk s ctx sh = Inr (r, s1, ctx1, sh1)"
    using ensureFrameCaptured_cold [OF False assms] by blast
  then show ?thesis
    by (rule ensureFrameCaptured_loop_advanced)
qed

lemma ensureFrameCaptured_observed:
  assumes "preserved_by_capture ops g"
    and "ensureFrameCaptured ops env s ctx t = Inr (r, s1, ctx1, t1)"
  shows "map g (duplicators s1) = map g (duplicators s)"
proof (cases "frames_to_skip \<le> numFramesCaptured ops s")
  case True
  then show ?thesis using assms(2) by (simp add: ensureFrameCaptured_def)
next
  case False
  obtain start_ms clk sh sh1 where
    "ensureFrameCaptured_loop ops start_ms clk s ctx sh = Inr (r, s1, ctx1, sh1)"
    using ensureFrameCaptured_cold [OF False assms(2)] by blast
  then show ?thesis
    by (rule ensureFrameCaptured_loop_observed [OF assms(1)])
qed

lemma ensureFrameCaptured_warm:
  "frames_to_skip \<le> numFramesCaptured ops s \<Longrightarrow>
     ensureFrameCaptured ops env s ctx t = Inr (True, s, ctx, t)"
  by (simp add: ensureFrameCaptured_def)


lemma doDuplicateUnlocked_cases:
  assumes "doDuplicateUnlocked ops env s ctx m t = Inr (r, s1, ctx1, t1)"
  obtains s2 ctx2 w s3 ctx3 t3 where
    "setup_context ops s ctx = (s2, ctx2)"
    "ensureFrameCaptured ops env s2 ctx2 t = Inr (w, s3, ctx3, t3)"
    "(\<not> w \<and> (r, s1, ctx1, t1) = (False, s3, ctx3, t3)) \<or>
     (w \<and> m < 0 \<and> doDuplicateAll ops s3 ctx3 t3 = Inr (r, s1, ctx1, t1)) \<or>
     (w \<and> \<not> m < 0 \<and> doDuplicateOne ops s3 ctx3 m t3 = (r, s1, ctx1, t1))"
proof -
  obtain s2 ctx2 where su: "setup_context ops s ctx = (s2, ctx2)"
    by (cases "setup_context ops s ctx")
  have unfold: "doDuplicateUnlocked ops env s ctx m t =
      (case ensureFrameCaptured ops env s2 ctx2 t of
         Inl f \<Rightarrow> Inl f
       | Inr (warm, s2, ctx2, target2) \<Rightarrow>
           if \<not> warm then Inr (False, s2, ctx2, target2)
           else if m < 0 then doDuplicateAll ops s2 ctx2 target2
           else Inr (doDuplicateOne ops s2 ctx2 m target2))"
    by (simp add: doDuplicateUnlocked_def su)
  obtain x where efx: "ensureFrameCaptured ops env s2 ctx2 t = Inr x"
    using assms unfolding unfold by (cases "ensureFrameCaptured ops env s2 ctx2 t") simp_all
  obtain w s3 ctx3 t3 where x: "x = (w, s3, ctx3, t3)"
    by (cases x)
  have "(\<not> w \<and> (r, s1, ctx1, t1) = (False, s3, ctx3, t3)) \<or>
     (w \<and> m < 0 \<and> doDuplicateAll ops s3 ctx3 t3 = Inr (r, s1, ctx1, t1)) \<or>
     (w \<and> \<not> m < 0 \<and> doDuplicateOne ops s3 ctx3 m t3 = (r, s1, ctx1, t1))"
    using assms unfolding unfold efx x by (simp split: if_splits)
  then show ?thesis
    using that su efx x by blast
qed

lemma doDuplicateUnlocked_advanced:
  assumes "doDuplicateUnlocked ops env s ctx m t = Inr (r, s1, ctx1, t1)"
  shows "adapters_advanced s s1"
proof -
  from assms obtain s2 ctx2 w s3 ctx3 t3 where
    su: "setup_context ops s ctx = (s2, ctx2)" and
    ef: "ensureFrameCaptured ops env s2 ctx2 t = Inr (w, s3, ctx3, t3)" and
    last: "(\<not> w \<and> (r, s1, ctx1, t1) = (False, s3, ctx3, t3)) \<or>
     (w \<and> m < 0 \<and> doDuplicateAll ops s3 ctx3 t3 = Inr (r, s1, ctx1, t1)) \<or>
     (w \<and> \<not> m < 0 \<and> doDuplicateOne ops s3 ctx3 m t3 = (r, s1, ctx1, t1))"
    by (rule doDuplicateUnlocked_cases)
  have a2: "adapters_advanced s s2"
    using setup_context_advanced [OF su] by simp
  have a3: "adapters_advanced s2 s3"
    using ensureFrameCaptured_advanced [OF ef] by simp
  have a: "adapters_advanced s s3"
    using a2 a3 by (rule adapters_advanced_trans)
  from last have "adapters_advanced s3 s1"
  proof (elim disjE conjE)
    assume "(r, s1, ctx1, t1) = (False, s3, ctx3, t3)"
    then show ?thesis by simp
  next
    assume "doDuplicateAll ops s3 ctx3 t3 = Inr (r, s1, ctx1, t1)"
    then show ?thesis using doDuplicateAll_advanced by blast
  next
    assume "doDuplicateOne ops s3 ctx3 m t3 = (r, s1, ctx1, t1)"
    then show ?thesis using doDuplicateOne_advanced by blast
  qed
  with a show ?thesis by (rule adapters_advanced_trans)
qed

lemma doDuplicateUnlocked_observed:
  assumes "preserved_by_capture ops g"
    and "doDuplicateUnlocked ops env s ctx m t = Inr (r, s1, ctx1, t1)"
  shows "map g (duplicators s1) = map g (duplicators s)"
proof -
  from assms(2) obtain s2 ctx2 w s3 ctx3 t3 where
    su: "setup_context ops s ctx = (s2, ctx2)" and
    ef: "ensureFrameCaptured ops env s2 ctx2 t = Inr (w, s3, ctx3, t3)" and
    last: "(\<not> w \<and> (r, s1, ctx1, t1) = (False, s3, ctx3, t3)) \<or>
     (w \<and> m < 0 \<and> doDuplicateAll ops s3 ctx3 t3 = Inr (r, s1, ctx1, t1)) \<or>
     (w \<and> \<not> m < 0 \<and> doDuplicateOne ops s3 ctx3 m t3 = (r, s1, ctx1, t1))"
    by (rule doDuplicateUnlocked_cases)
  have a: "map g (duplicators s3) = map g (duplicators s)"
    using setup_context_observed [OF assms(1) su] ensureFrameCaptured_observed [OF assms(1) ef]
    by simp
  from last have "map g (duplicators s1) = map g (duplicators s3)"
  proof (elim disjE conjE)
    assume "(r, s1, ctx1, t1) = (False, s3, ctx3, t3)"
    then show ?thesis by simp
  next
    assume "doDuplicateAll ops s3 ctx3 t3 = Inr (r, s1, ctx1, t1)"
    then show ?thesis by (rule doDuplicateAll_observed [OF assms(1)])
  next
    assume "doDuplicateOne ops s3 ctx3 m t3 = (r, s1, ctx1, t1)"
    then show ?thesis by (rule doDuplicateOne_observed [OF assms(1)])
  qed
  with a show ?thesis by simp
qed


section \<open>Walking past the last monitor\<close>

lemma screenCount_loop_sum:
  "screenCount_loop ops n ds = n + sum_list (map (\<lambda>d. int (ad_screenCount ops d)) ds)"
  by (induction ops n ds rule: screenCount_loop.induct) auto

lemma screenCountUnlocked_sum:
  "screenCountUnlocked ops s = sum_list (map (\<lambda>d. int (ad_screenCount ops d)) (duplicators s))"
  by (simp add: screenCountUnlocked_def screenCount_loop_sum)

lemma screenCountUnlocked_nonneg: "0 \<le> screenCountUnlocked ops s"
  by (auto simp: screenCountUnlocked_sum intro!: sum_list_nonneg)


lemma past_head:
  "int n + sum_list (map (\<lambda>d. int (f d)) ds) \<le> m \<Longrightarrow> int n \<le> m"
proof -
  have "0 \<le> sum_list (map (\<lambda>d. int (f d)) ds)"
    by (auto intro!: sum_list_nonneg)
  then show "int n + sum_list (map (\<lambda>d. int (f d)) ds) \<le> m \<Longrightarrow> int n \<le> m"
    by linarith
qed

lemma screenRect_loop_past_end:
  "sum_list (map (\<lambda>d. int (ad_screenCount ops d)) ds) \<le> m \<Longrightarrow>
     screenRect_loop ops ds m = QRect_default"
  by (induction ops ds m rule: screenRect_loop.induct) (auto dest: past_head)




section \<open>Invalid monitor ids\<close>

lemma doDuplicate_prepared:
  assumes init: "initialize ops env (poll_display env s) = (True, s1)"
    and prep: "fr_prepare ops fr (selectedDesktopSize ops s1 monitor_id) monitor_id = (True, fr1)"
  shows "doDuplicate ops env s fr monitor_id =
     (case doDuplicateUnlocked ops env s1 (frame_context fr1) monitor_id
             ((frame fr1)\<lparr>updatedRegion := []\<rparr>) of
        Inl f \<Rightarrow> Inl f
      | Inr (ok, s2, ctx2, target2) \<Rightarrow>
          if ok then
            Inr (SUCCEEDED, s2\<lparr>succeeded_duplications := succeeded_duplications s2 + 1\<rparr>,
                 fr1\<lparr>frame_context := ctx2, frame := target2\<rparr>)
          else if monitor_id \<ge> screenCountUnlocked ops s2 then
            Inr (INVALID_MONITOR_ID, s2, fr1\<lparr>frame_context := ctx2, frame := target2\<rparr>)
          else Inr (DUPLICATION_FAILED, deinitialize s2,
                    fr1\<lparr>frame_context := ctx2, frame := target2\<rparr>))"
  by (simp add: doDuplicate_def init prep Let_def split: sum.splits prod.splits)

lemma doDuplicate_prepare_failed:
  assumes init: "initialize ops env (poll_display env s) = (True, s1)"
    and prep: "fr_prepare ops fr (selectedDesktopSize ops s1 monitor_id) monitor_id = (False, fr1)"
  shows "doDuplicate ops env s fr monitor_id = Inr (FRAME_PREPARE_FAILED, s1, fr1)"
  by (simp add: doDuplicate_def init prep)






text \<open>
  C10. For a monitor id not below the screen count, \<^verbatim>\<open>screenRect\<close> returns the empty
  default rectangle and \<^verbatim>\<open>selectedDesktopSize\<close> the size zero. A \<^verbatim>\<open>duplicateMonitor\<close>
  call with such an id therefore asks the frame to prepare a buffer of size zero
  before the id is looked at: the call returns \<open>INVALID_MONITOR_ID\<close> only if that
  preparation succeeds, and \<open>FRAME_PREPARE_FAILED\<close> if it fails.
\<close>

theorem C10_out_of_range_prepares_empty_frame:
  assumes init: "initialize ops env (poll_display env s) = (True, s1)"
    and range: "screenCountUnlocked ops s1 \<le> monitor_id"
  shows "screenRect ops s1 monitor_id = QRect_default \<and>
         isEmpty (screenRect ops s1 monitor_id) \<and>
         selectedDesktopSize ops s1 monitor_id = \<lparr>sz_width = 0, sz_height = 0\<rparr> \<and>
         (\<forall>s2 fr2. duplicateMonitor ops env s fr monitor_id = Inr (INVALID_MONITOR_ID, s2, fr2) \<longrightarrow>
            fst (fr_prepare ops fr \<lparr>sz_width = 0, sz_height = 0\<rparr> monitor_id)) \<and>
         (\<not> fst (fr_prepare ops fr \<lparr>sz_width = 0, sz_height = 0\<rparr> monitor_id) \<longrightarrow>
            duplicateMonitor ops env s fr monitor_id =
              Inr (FRAME_PREPARE_FAILED, s1,
                   snd (fr_prepare ops fr \<lparr>sz_width = 0, sz_height = 0\<rparr> monitor_id)))"
proof -
  have rect: "screenRect ops s1 monitor_id = QRect_default"
    using range by (simp add: screenRect_def screenCountUnlocked_sum screenRect_loop_past_end)
  have m0: "\<not> monitor_id < 0"
    using range screenCountUnlocked_nonneg [of ops s1] by simp
  have size: "selectedDesktopSize ops s1 monitor_id = \<lparr>sz_width = 0, sz_height = 0\<rparr>"
    using m0 by (simp add: selectedDesktopSize_def rect rect_size_def QRect_default_def)
  obtain ok fr1 where prep: "fr_prepare ops fr \<lparr>sz_width = 0, sz_height = 0\<rparr> monitor_id = (ok, fr1)"
    by (cases "fr_prepare ops fr \<lparr>sz_width = 0, sz_height = 0\<rparr> monitor_id")
  have failed: "duplicateMonitor ops env s fr monitor_id = Inr (FRAME_PREPARE_FAILED, s1, fr1)"
    if "\<not> ok"
    using that prep doDuplicate_prepare_failed [OF init, of fr monitor_id fr1]
    by (simp add: size duplicateMonitor_def)
  show ?thesis
    using rect size prep failed by (cases ok) auto
qed

theorem C10_witness:
  "initialize (sim_ops False) (sim_env [0, 1] (Some 1))
     (poll_display (sim_env [0, 1] (Some 1)) new_controller) =
     (True, snd (initialize (sim_ops False) (sim_env [0, 1] (Some 1))
                  (poll_display (sim_env [0, 1] (Some 1)) new_controller))) \<and>
   \<not> fst (fr_prepare (sim_ops False) sim_frame \<lparr>sz_width = 0, sz_height = 0\<rparr> 5) \<and>
   selectedDesktopSize (sim_ops False)
     (snd (initialize (sim_ops False) (sim_env [0, 1] (Some 1))
            (poll_display (sim_env [0, 1] (Some 1)) new_controller))) 5 =
     \<lparr>sz_width = 0, sz_height = 0\<rparr> \<and>
   map_sum id fst (duplicateMonitor (sim_ops False) (sim_env [0, 1] (Some 1)) new_controller
     sim_frame 5) = Inr FRAME_PREPARE_FAILED"
proof -
  let ?ops = "sim_ops False"
  let ?env = "sim_env [0, 1] (Some 1)"
  let ?s1 = "snd (initialize ?ops ?env (poll_display ?env new_controller))"
  have init: "initialize ?ops ?env (poll_display ?env new_controller) = (True, ?s1)"
    by code_simp
  have range: "screenCountUnlocked ?ops ?s1 \<le> 5"
    by code_simp
  have prep: "\<not> fst (fr_prepare ?ops sim_frame \<lparr>sz_width = 0, sz_height = 0\<rparr> 5)"
    by (simp add: sim_ops_def)
  show ?thesis
    using C10_out_of_range_prepares_empty_frame [OF init range, of sim_frame] init prep
    by simp
qed

section \<open>Unregistering a context\<close>

text \<open>
  C8. For an expired context (its controller id is not the identity of the
  controller, or it does not have one sub-context per adapter) \<^verbatim>\<open>unregister\<close> is a
  no-op: no adapter is called and the controller is unchanged. For a current context
  the i-th adapter unregisters the i-th sub-context, for every adapter index i, and
  nothing but the adapters changes.
\<close>

theorem C8_unregister:
  "(contextExpired s ctx \<longrightarrow> unregister ops s ctx = s) \<and>
   (\<not> contextExpired s ctx \<longrightarrow>
      length (duplicators (unregister ops s ctx)) = length (duplicators s) \<and>
      (\<forall>i < length (duplicators s).
         duplicators (unregister ops s ctx) ! i =
           ad_unregister ops (duplicators s ! i) (contexts ctx ! i)) \<and>
      unregister ops s ctx = s\<lparr>duplicators := duplicators (unregister ops s ctx)\<rparr>)"
  by (simp add: unregister_def contextExpired_def unregister_loop_length unregister_loop_nth)

theorem C8_witness:
  "contextExpired
     (fst (snd (projr (duplicate (sim_ops True) (sim_env [0, 1] (Some 1)) new_controller sim_frame))))
     \<lparr>controller_id = 0, contexts = [True, True]\<rparr> \<and>
   unregister (sim_ops True)
     (fst (snd (projr (duplicate (sim_ops True) (sim_env [0, 1] (Some 1)) new_controller sim_frame))))
     \<lparr>controller_id = 0, contexts = [True, True]\<rparr> =
     fst (snd (projr (duplicate (sim_ops True) (sim_env [0, 1] (Some 1)) new_controller sim_frame))) \<and>
   \<not> contextExpired
     (fst (snd (projr (duplicate (sim_ops True) (sim_env [0, 1] (Some 1)) new_controller sim_frame))))
     \<lparr>controller_id = 1, contexts = [True, True]\<rparr> \<and>
   map sa_registered (duplicators
     (fst (snd (projr (duplicate (sim_ops True) (sim_env [0, 1] (Some 1)) new_controller sim_frame)))))
     = [1, 1] \<and>
   duplicators (unregister (sim_ops True)
     (fst (snd (projr (duplicate (sim_ops True) (sim_env [0, 1] (Some 1)) new_controller sim_frame))))
     \<lparr>controller_id = 1, contexts = [True, True]\<rparr>) ! 1 =
   ad_unregister (sim_ops True)
     (duplicators
       (fst (snd (projr (duplicate (sim_ops True) (sim_env [0, 1] (Some 1)) new_controller sim_frame))))
       ! 1) True"
proof -
  let ?s = "fst (snd (projr
    (duplicate (sim_ops True) (sim_env [0, 1] (Some 1)) new_controller sim_frame)))"
  let ?old = "\<lparr>controller_id = 0, contexts = [True, True]\<rparr>"
  let ?cur = "\<lparr>controller_id = 1, contexts = [True, True]\<rparr>"
  have a: "contextExpired ?s ?old"
    by code_simp
  have b: "\<not> contextExpired ?s ?cur"
    by code_simp
  have c: "map sa_registered (duplicators ?s) = [1, 1]"
    by code_simp
  have d: "(1::nat) < length (duplicators ?s)"
    by code_simp
  show ?thesis
    using C8_unregister [of ?s ?old "sim_ops True"] C8_unregister [of ?s ?cur "sim_ops True"]
      a b c d by simp
qed

section \<open>Resolving a monitor id\<close>

lemma doDuplicateOne_loop_resolves:
  "length cs = length ds \<Longrightarrow> 0 \<le> m \<Longrightarrow>
   m < sum_list (map (\<lambda>d. int (ad_screenCount ops d)) ds) \<Longrightarrow>
   \<exists>i r. resolve_monitor (map (ad_screenCount ops) ds) m = Some (i, r) \<and>
         i < length ds \<and> 0 \<le> r \<and> r < int (ad_screenCount ops (ds ! i)) \<and>
         m = sum_list (map (\<lambda>d. int (ad_screenCount ops d)) (take i ds)) + r \<and>
         doDuplicateOne_loop ops ds cs m t =
           (case ad_duplicateMonitor ops (ds ! i) (cs ! i) r t of
              (ok, d1, c1, t1) \<Rightarrow>
                (ok, ds[i := d1], cs[i := c1],
                 if ok then setTopLeft t1 (topLeft (ad_screenRect ops d1 r)) else t1))"
proof (induction ops ds cs m t rule: doDuplicateOne_loop.induct)
  case (1 ops d ds c cs monitor_id target)
  show ?case
  proof (cases "monitor_id \<ge> int (ad_screenCount ops d)")
    case False
    then have "resolve_monitor (map (ad_screenCount ops) (d # ds)) monitor_id = Some (0, monitor_id)"
      by simp
    moreover have "doDuplicateOne_loop ops (d # ds) (c # cs) monitor_id target =
        (case ad_duplicateMonitor ops d c monitor_id target of
           (ok, d1, c1, t1) \<Rightarrow>
             (ok, (d # ds)[0 := d1], (c # cs)[0 := c1],
              if ok then setTopLeft t1 (topLeft (ad_screenRect ops d1 monitor_id)) else t1))"
      using False by (auto split: prod.splits)
    ultimately show ?thesis
      using False "1.prems"(2) by (intro exI [of _ 0] exI [of _ monitor_id]) simp
  next
    case True
    let ?m = "monitor_id - int (ad_screenCount ops d)"
    have "length cs = length ds" "0 \<le> ?m"
      "?m < sum_list (map (\<lambda>d. int (ad_screenCount ops d)) ds)"
      using "1.prems" True by auto
    from "1.IH" [OF True this] obtain i r where
      ih: "resolve_monitor (map (ad_screenCount ops) ds) ?m = Some (i, r)"
        "i < length ds" "0 \<le> r" "r < int (ad_screenCount ops (ds ! i))"
        "?m = sum_list (map (\<lambda>d. int (ad_screenCount ops d)) (take i ds)) + r"
        "doDuplicateOne_loop ops ds cs ?m target =
           (case ad_duplicateMonitor ops (ds ! i) (cs ! i) r target of
              (ok, d1, c1, t1) \<Rightarrow>
                (ok, ds[i := d1], cs[i := c1],
                 if ok then setTopLeft t1 (topLeft (ad_screenRect ops d1 r)) else t1))"
      by blast
    have "resolve_monitor (map (ad_screenCount ops) (d # ds)) monitor_id = Some (Suc i, r)"
      using True ih(1) by simp
    moreover have "doDuplicateOne_loop ops (d # ds) (c # cs) monitor_id target =
        (case ad_duplicateMonitor ops ((d # ds) ! Suc i) ((c # cs) ! Suc i) r target of
           (ok, d1, c1, t1) \<Rightarrow>
             (ok, (d # ds)[Suc i := d1], (c # cs)[Suc i := c1],
              if ok then setTopLeft t1 (topLeft (ad_screenRect ops d1 r)) else t1))"
      using True ih(6) by (auto split: prod.splits)
    ultimately show ?thesis
      using ih(2-5) by (intro exI [of _ "Suc i"] exI [of _ r]) simp
  qed
qed simp_all

text \<open>
  C7. For a monitor id from 0 up to the screen count and a current context,
  \<^verbatim>\<open>doDuplicateOne\<close> resolves the id as the spec describes (walking the adapters and
  subtracting their screen counts), calls the per-monitor duplicate of the adapter
  found with the remainder as index, and returns what that call returns. On success
  the frame is the one that call filled with its top-left set to the corner
  \<open>(x1, y1)\<close> of that monitor's rectangle; on failure the frame is as the call left
  it. No other adapter and no other sub-context is touched.
\<close>

theorem C7_single_monitor_resolution:
  assumes "0 \<le> monitor_id" and "monitor_id < screenCountUnlocked ops s"
    and "\<not> contextExpired s ctx"
  shows "\<exists>i r. resolve_monitor (map (ad_screenCount ops) (duplicators s)) monitor_id = Some (i, r) \<and>
           i < length (duplicators s) \<and> 0 \<le> r \<and>
           r < int (ad_screenCount ops (duplicators s ! i)) \<and>
           monitor_id =
             sum_list (map (\<lambda>d. int (ad_screenCount ops d)) (take i (duplicators s))) + r \<and>
           doDuplicateOne ops s ctx monitor_id target =
             (case ad_duplicateMonitor ops (duplicators s ! i) (contexts ctx ! i) r target of
                (ok, d1, c1, t1) \<Rightarrow>
                  (ok, s\<lparr>duplicators := (duplicators s)[i := d1]\<rparr>,
                   ctx\<lparr>contexts := (contexts ctx)[i := c1]\<rparr>,
                   if ok then t1\<lparr>frame_topLeft :=
                                   \<lparr>pt_x = rc_x1 (ad_screenRect ops d1 r),
                                    pt_y = rc_y1 (ad_screenRect ops d1 r)\<rparr>\<rparr>
                   else t1))"
proof -
  have len: "length (contexts ctx) = length (duplicators s)"
    using assms(3) by (simp add: contextExpired_def)
  have lt: "monitor_id < sum_list (map (\<lambda>d. int (ad_screenCount ops d)) (duplicators s))"
    using assms(2) by (simp add: screenCountUnlocked_sum)
  from doDuplicateOne_loop_resolves [OF len assms(1) lt, of target] obtain i r where
    h: "resolve_monitor (map (ad_screenCount ops) (duplicators s)) monitor_id = Some (i, r)"
      "i < length (duplicators s)" "0 \<le> r" "r < int (ad_screenCount ops (duplicators s ! i))"
      "monitor_id = sum_list (map (\<lambda>d. int (ad_screenCount ops d)) (take i (duplicators s))) + r"
      "doDuplicateOne_loop ops (duplicators s) (contexts ctx) monitor_id target =
         (case ad_duplicateMonitor ops (duplicators s ! i) (contexts ctx ! i) r target of
            (ok, d1, c1, t1) \<Rightarrow>
              (ok, (duplicators s)[i := d1], (contexts ctx)[i := c1],
               if ok then setTopLeft t1 (topLeft (ad_screenRect ops d1 r)) else t1))"
    by blast
  have "doDuplicateOne ops s ctx monitor_id target =
      (case ad_duplicateMonitor ops (duplicators s ! i) (contexts ctx ! i) r target of
         (ok, d1, c1, t1) \<Rightarrow>
           (ok, s\<lparr>duplicators := (duplicators s)[i := d1]\<rparr>,
            ctx\<lparr>contexts := (contexts ctx)[i := c1]\<rparr>,
            if ok then t1\<lparr>frame_topLeft :=
                            \<lparr>pt_x = rc_x1 (ad_screenRect ops d1 r),
                             pt_y = rc_y1 (ad_screenRect ops d1 r)\<rparr>\<rparr>
            else t1))"
    by (simp add: doDuplicateOne_def h(6) setTopLeft_def topLeft_def split: prod.splits)
  then show ?thesis
    using h(1-5) by blast
qed

theorem C7_witness:
  "(0::int) \<le> 0 \<and>
   0 < screenCountUnlocked (sim_ops True)
     (fst (snd (projr (duplicate (sim_ops True) (sim_env [0, 1] (Some 1)) new_controller sim_frame)))) \<and>
   \<not> contextExpired
     (fst (snd (projr (duplicate (sim_ops True) (sim_env [0, 1] (Some 1)) new_controller sim_frame))))
     \<lparr>controller_id = 1, contexts = [True, True]\<rparr> \<and>
   frame_topLeft (frame sim_frame) = \<lparr>pt_x = 0, pt_y = 0\<rparr> \<and>
   fst (doDuplicateOne (sim_ops True)
     (fst (snd (projr (duplicate (sim_ops True) (sim_env [0, 1] (Some 1)) new_controller sim_frame))))
     \<lparr>controller_id = 1, contexts = [True, True]\<rparr> 0 (frame sim_frame)) \<and>
   frame_topLeft (snd (snd (snd (doDuplicateOne (sim_ops True)
     (fst (snd (projr (duplicate (sim_ops True) (sim_env [0, 1] (Some 1)) new_controller sim_frame))))
     \<lparr>controller_id = 1, contexts = [True, True]\<rparr> 0 (frame sim_frame))))) =
     \<lparr>pt_x = 1920, pt_y = 0\<rparr>"
proof -
  let ?ops = "sim_ops True"
  let ?s = "fst (snd (projr
    (duplicate (sim_ops True) (sim_env [0, 1] (Some 1)) new_controller sim_frame)))"
  let ?ctx = "\<lparr>controller_id = 1, contexts = [True, True]\<rparr>"
  have a: "(0::int) \<le> 0"
    by simp
  have b: "0 < screenCountUnlocked ?ops ?s"
    by code_simp
  have c: "\<not> contextExpired ?s ?ctx"
    by code_simp
  have z: "frame_topLeft (frame sim_frame) = \<lparr>pt_x = 0, pt_y = 0\<rparr>"
    by code_simp
  have rm: "resolve_monitor (map (ad_screenCount ?ops) (duplicators ?s)) 0 = Some (0, 0)"
    by code_simp
  from C7_single_monitor_resolution [OF a b c, of "frame sim_frame"] obtain i r where
    h: "resolve_monitor (map (ad_screenCount ?ops) (duplicators ?s)) 0 = Some (i, r)"
    and eq: "doDuplicateOne ?ops ?s ?ctx 0 (frame sim_frame) =
      (case ad_duplicateMonitor ?ops (duplicators ?s ! i) (contexts ?ctx ! i) r (frame sim_frame) of
         (ok, d1, c1, t1) \<Rightarrow>
           (ok, ?s\<lparr>duplicators := (duplicators ?s)[i := d1]\<rparr>,
            ?ctx\<lparr>contexts := (contexts ?ctx)[i := c1]\<rparr>,
            if ok then t1\<lparr>frame_topLeft :=
                            \<lparr>pt_x = rc_x1 (ad_screenRect ?ops d1 r),
                             pt_y = rc_y1 (ad_screenRect ?ops d1 r)\<rparr>\<rparr>
            else t1))"
    by blast
  have i: "i = 0" and r: "r = 0"
    using h rm by simp_all
  note eq1 = eq [unfolded i r]
  have ok: "fst (doDuplicateOne ?ops ?s ?ctx 0 (frame sim_frame))"
    unfolding eq1 by code_simp
  have tl: "frame_topLeft (snd (snd (snd (doDuplicateOne ?ops ?s ?ctx 0 (frame sim_frame))))) =
      \<lparr>pt_x = 1920, pt_y = 0\<rparr>"
    unfolding eq1 by code_simp
  show ?thesis
    by (rule conjI [OF a], rule conjI [OF b], rule conjI [OF c], rule conjI [OF z],
        rule conjI [OF ok], rule tl)
qed

section \<open>Captured frames and the warm-up\<close>

lemma Min_insert_min:
  "finite S \<Longrightarrow> Min (insert (min a b) S) = Min (insert a (insert b S))"
  by (cases "S = {}") (simp_all add: min.assoc)

lemma numFramesCaptured_loop_Min:
  "numFramesCaptured_loop ops m ds =
     Min (insert m ((\<lambda>d. sint (ad_numFramesCaptured ops d)) ` set ds))"
proof (induction ds arbitrary: m)
  case Nil
  then show ?case by simp
next
  case (Cons d ds)
  show ?case
    by (simp add: Cons.IH Min_insert_min)
qed

lemma sint_le_INT64_MAX: "sint (w :: 64 word) \<le> INT64_MAX"
  using sint_lt [of w] by (simp add: INT64_MAX_def)

lemma numFramesCaptured_Min:
  assumes "duplicators s \<noteq> []"
  shows "numFramesCaptured ops s =
           Min ((\<lambda>d. sint (ad_numFramesCaptured ops d)) ` set (duplicators s))"
proof -
  let ?S = "(\<lambda>d. sint (ad_numFramesCaptured ops d)) ` set (duplicators s)"
  have ne: "?S \<noteq> {}" and fin: "finite ?S"
    using assms by auto
  obtain d where d: "d \<in> set (duplicators s)"
    using assms by (cases "duplicators s") auto
  have "Min ?S \<le> sint (ad_numFramesCaptured ops d)"
    using d fin by (intro Min_le) auto
  then have "Min ?S \<le> INT64_MAX"
    using sint_le_INT64_MAX [of "ad_numFramesCaptured ops d"] by linarith
  then have le: "min INT64_MAX (Min ?S) = Min ?S"
    by (rule min_absorb2)
  have "numFramesCaptured ops s = Min (insert INT64_MAX ?S)"
    by (simp only: numFramesCaptured_def numFramesCaptured_loop_Min)
  also have "\<dots> = min INT64_MAX (Min ?S)"
    using fin ne by (rule Min_insert)
  finally show ?thesis
    using le by simp
qed

lemma ensureFrameCaptured_loop_rounds:
  "ensureFrameCaptured_loop ops start_ms clk s ctx sh = Inr (ok, s1, ctx1, sh1) \<Longrightarrow>
     \<exists>n ok1. doDuplicateAll_rounds ops n s ctx sh = Inr (ok1, s1, ctx1, sh1) \<and>
            (ok \<longrightarrow> ok1 \<and> frames_to_skip \<le> numFramesCaptured ops s1) \<and>
            (numFramesCaptured ops s < frames_to_skip \<longrightarrow> 0 < n)"
proof (induction "length clk" arbitrary: clk s ctx sh rule: less_induct)
  case less
  show ?case
  proof (cases "numFramesCaptured ops s < 1")
    case False
    then have "ok \<and> s1 = s \<and> ctx1 = ctx \<and> sh1 = sh"
      using less.prems by (subst (asm) ensureFrameCaptured_loop_unfold) simp
    then have "doDuplicateAll_rounds ops 0 s ctx sh = Inr (True, s1, ctx1, sh1)"
      by simp
    then show ?thesis
      using False by (intro exI [of _ 0] exI [of _ True]) (simp add: frames_to_skip_def)
  next
    case True
    from less.prems True obtain l clk2 ok2 s2 ctx2 sh2 where
      clk: "clk = l # clk2" and dup: "doDuplicateAll ops s ctx sh = Inr (ok2, s2, ctx2, sh2)"
      by (subst (asm) ensureFrameCaptured_loop_unfold)
        (auto split: list.splits sum.splits prod.splits)
    show ?thesis
    proof (cases ok2)
      case False
      then have "\<not> ok \<and> s1 = s2 \<and> ctx1 = ctx2 \<and> sh1 = sh2"
        using less.prems True clk dup
        by (subst (asm) ensureFrameCaptured_loop_unfold) simp
      moreover have "doDuplicateAll_rounds ops (Suc 0) s ctx sh = Inr (False, s2, ctx2, sh2)"
        using dup False by simp
      ultimately show ?thesis
        by (intro exI [of _ "Suc 0"] exI [of _ False]) simp
    next
      case ok2: True
      from less.prems True clk dup ok2 obtain now clk3 where clk2: "clk2 = now # clk3"
        by (subst (asm) ensureFrameCaptured_loop_unfold) (auto split: list.splits)
      show ?thesis
      proof (cases "now - start_ms > 500")
        case late: True
        then have "\<not> ok \<and> s1 = s2 \<and> ctx1 = ctx2 \<and> sh1 = sh2"
          using less.prems True clk dup ok2 clk2
          by (subst (asm) ensureFrameCaptured_loop_unfold) simp
        moreover have "doDuplicateAll_rounds ops (Suc 0) s ctx sh = Inr (True, s2, ctx2, sh2)"
          using dup ok2 by simp
        ultimately show ?thesis
          by (intro exI [of _ "Suc 0"] exI [of _ True]) simp
      next
        case False
        have rec: "ensureFrameCaptured_loop ops start_ms clk3 s2 ctx2 sh2 = Inr (ok, s1, ctx1, sh1)"
          using less.prems True clk dup ok2 clk2 False
          by (subst (asm) ensureFrameCaptured_loop_unfold) simp
        have "length clk3 < length clk"
          using clk clk2 by simp
        from less.hyps [OF this rec] obtain n ok1 where
          ih: "doDuplicateAll_rounds ops n s2 ctx2 sh2 = Inr (ok1, s1, ctx1, sh1)"
            "ok \<longrightarrow> ok1 \<and> frames_to_skip \<le> numFramesCaptured ops s1"
          by blast
        have "doDuplicateAll_rounds ops (Suc n) s ctx sh = Inr (ok1, s1, ctx1, sh1)"
          using dup ok2 ih(1) by simp
        then show ?thesis
          using ih(2) by (intro exI [of _ "Suc n"] exI [of _ ok1]) simp
      qed
    qed
  qed
qed

text \<open>
  C6. \<^verbatim>\<open>numFramesCaptured\<close> is the minimum, over the adapters, of the frames each has
  captured. With \<open>frames_to_skip = 1\<close>, \<^verbatim>\<open>ensureFrameCaptured\<close> returns true at once,
  touching nothing, when that minimum is at least one. Otherwise the warm-up runs,
  and what it leaves is the outcome of one or more full-desktop duplications
  (\<^verbatim>\<open>doDuplicateAll\<close>) in a row on the warm-up frame, and of nothing else; the monitor
  id of the request is not an argument of the warm-up. When the warm-up reports
  success, every one of these duplications succeeded and the minimum is at least one.
\<close>

theorem C6_warm_up:
  "(duplicators s \<noteq> [] \<longrightarrow>
      numFramesCaptured ops s =
        Min ((\<lambda>d. sint (ad_numFramesCaptured ops d)) ` set (duplicators s))) \<and>
   frames_to_skip = 1 \<and>
   (frames_to_skip \<le> numFramesCaptured ops s \<longrightarrow>
      ensureFrameCaptured ops env s ctx target = Inr (True, s, ctx, target)) \<and>
   (numFramesCaptured ops s < frames_to_skip \<longrightarrow>
      (\<forall>ok s1 ctx1 target1.
         ensureFrameCaptured ops env s ctx target = Inr (ok, s1, ctx1, target1) \<longrightarrow>
         (\<exists>n ok1 shared_frame1.
            0 < n \<and>
            doDuplicateAll_rounds ops n s ctx
              (if sz_width (frame_size target) \<ge> sz_width (desktopSize s) \<and>
                  sz_height (frame_size target) \<ge> sz_height (desktopSize s)
               then target else fr_create ops (desktopSize s)) =
              Inr (ok1, s1, ctx1, shared_frame1) \<and>
            (ok \<longrightarrow> ok1 \<and> frames_to_skip \<le> numFramesCaptured ops s1))))"
proof (intro conjI impI allI)
  assume "duplicators s \<noteq> []"
  then show "numFramesCaptured ops s =
      Min ((\<lambda>d. sint (ad_numFramesCaptured ops d)) ` set (duplicators s))"
    by (rule numFramesCaptured_Min)
next
  show "frames_to_skip = 1"
    by (simp add: frames_to_skip_def)
next
  assume "frames_to_skip \<le> numFramesCaptured ops s"
  then show "ensureFrameCaptured ops env s ctx target = Inr (True, s, ctx, target)"
    by (rule ensureFrameCaptured_warm)
next
  fix ok s1 ctx1 target1
  let ?use = "sz_width (frame_size target) \<ge> sz_width (desktopSize s) \<and>
                sz_height (frame_size target) \<ge> sz_height (desktopSize s)"
  let ?sh = "if ?use then target else fr_create ops (desktopSize s)"
  assume cold: "numFramesCaptured ops s < frames_to_skip"
    and run: "ensureFrameCaptured ops env s ctx target = Inr (ok, s1, ctx1, target1)"
  obtain start_ms clk where clk: "clock env = start_ms # clk"
    using cold run by (cases "clock env") (auto simp: ensureFrameCaptured_def Let_def)
  have unfold: "ensureFrameCaptured ops env s ctx target =
      (case ensureFrameCaptured_loop ops start_ms clk s ctx ?sh of
         Inl f \<Rightarrow> Inl f
       | Inr (r, s1, ctx1, sh1) \<Rightarrow> Inr (r, s1, ctx1, if ?use then sh1 else target))"
    using cold clk by (simp add: ensureFrameCaptured_def Let_def)
  obtain x where lp: "ensureFrameCaptured_loop ops start_ms clk s ctx ?sh = Inr x"
    using run unfolding unfold
    by (cases "ensureFrameCaptured_loop ops start_ms clk s ctx ?sh") simp_all
  obtain r2 s2 ctx2 sh2 where x: "x = (r2, s2, ctx2, sh2)"
    by (cases x)
  have "r2 = ok \<and> s2 = s1 \<and> ctx2 = ctx1"
    using run unfolding unfold lp x by simp
  then have "ensureFrameCaptured_loop ops start_ms clk s ctx ?sh = Inr (ok, s1, ctx1, sh2)"
    using lp x by simp
  from ensureFrameCaptured_loop_rounds [OF this] cold
  show "\<exists>n ok1 shared_frame1. 0 < n \<and>
      doDuplicateAll_rounds ops n s ctx ?sh = Inr (ok1, s1, ctx1, shared_frame1) \<and>
      (ok \<longrightarrow> ok1 \<and> frames_to_skip \<le> numFramesCaptured ops s1)"
    by blast
qed


theorem C6_witness:
  "map (ad_numFramesCaptured (sim_ops True))
     (duplicators (fst (snd (projr
       (duplicateMonitor (sim_ops True) (sim_env [0, 1] (Some 1)) new_controller sim_frame 1)))))
     = [1, 2] \<and>
   numFramesCaptured (sim_ops True)
     (fst (snd (projr
       (duplicateMonitor (sim_ops True) (sim_env [0, 1] (Some 1)) new_controller sim_frame 1))))
     = 1 \<and>
   ensureFrameCaptured (sim_ops True) (sim_env [0, 1] (Some 1))
     (fst (snd (projr
       (duplicateMonitor (sim_ops True) (sim_env [0, 1] (Some 1)) new_controller sim_frame 1))))
     \<lparr>controller_id = 1, contexts = [True, True]\<rparr> (frame sim_frame) =
   Inr (True,
     fst (snd (projr
       (duplicateMonitor (sim_ops True) (sim_env [0, 1] (Some 1)) new_controller sim_frame 1))),
     \<lparr>controller_id = 1, contexts = [True, True]\<rparr>, frame sim_frame) \<and>
   numFramesCaptured (sim_ops True)
     (snd (initialize (sim_ops True) (sim_env [0, 1] (Some 1)) new_controller)) < frames_to_skip \<and>
   frames_to_skip \<le> numFramesCaptured (sim_ops True)
     (fst (snd (projr
       (ensureFrameCaptured (sim_ops True) (sim_env [0, 1] (Some 1))
          (snd (initialize (sim_ops True) (sim_env [0, 1] (Some 1)) new_controller))
          \<lparr>controller_id = 1, contexts = [True, True]\<rparr> (frame sim_frame)))))"
proof -
  let ?ops = "sim_ops True"
  let ?env = "sim_env [0, 1] (Some 1)"
  let ?s = "fst (snd (projr (duplicateMonitor ?ops ?env new_controller sim_frame 1)))"
  let ?ctx = "\<lparr>controller_id = 1, contexts = [True, True]\<rparr>"
  have a: "map (ad_numFramesCaptured ?ops) (duplicators ?s) = [1, 2]"
    by code_simp
  have b: "duplicators ?s \<noteq> []"
    by code_simp
  have c: "(\<lambda>d. sint (ad_numFramesCaptured ?ops d)) ` set (duplicators ?s) = {1, 2}"
  proof -
    have "(\<lambda>d. sint (ad_numFramesCaptured ?ops d)) ` set (duplicators ?s) =
        sint ` set (map (ad_numFramesCaptured ?ops) (duplicators ?s))"
      by (simp add: image_image)
    then show ?thesis
      unfolding a by simp
  qed
  note t = C6_warm_up [of ?s ?ops ?env ?ctx "frame sim_frame"]
  have n: "numFramesCaptured ?ops ?s = 1"
    using t b c by simp
  then have "frames_to_skip \<le> numFramesCaptured ?ops ?s"
    by (simp add: frames_to_skip_def)
  then have warm: "ensureFrameCaptured ?ops ?env ?s ?ctx (frame sim_frame) =
      Inr (True, ?s, ?ctx, frame sim_frame)"
    using t by blast
  let ?s0 = "snd (initialize ?ops ?env new_controller)"
  let ?run = "ensureFrameCaptured ?ops ?env ?s0 ?ctx (frame sim_frame)"
  have cold: "numFramesCaptured ?ops ?s0 < frames_to_skip"
    by code_simp
  have h: "?run = Inr (True, fst (snd (projr ?run)), fst (snd (snd (projr ?run))),
      snd (snd (snd (projr ?run))))"
    by code_simp
  note t0 = C6_warm_up [of ?s0 ?ops ?env ?ctx "frame sim_frame"]
  have warmed: "frames_to_skip \<le> numFramesCaptured ?ops (fst (snd (projr ?run)))"
    using t0 cold h by blast
  show ?thesis
    by (rule conjI [OF a], rule conjI [OF n], rule conjI [OF warm], rule conjI [OF cold],
        rule warmed)
qed

section \<open>The desktop rectangle\<close>

lemma isNull_translated [simp]: "isNull (translated r p) = isNull r"
  by (simp add: isNull_def translated_def)

lemma translated_fields [simp]:
  "rc_x1 (translated r p) = rc_x1 r + pt_x p"
  "rc_y1 (translated r p) = rc_y1 r + pt_y p"
  "rc_x2 (translated r p) = rc_x2 r + pt_x p"
  "rc_y2 (translated r p) = rc_y2 r + pt_y p"
  by (simp_all add: translated_def)

lemma united_translated:
  "united (translated a p) (translated b p) = translated (united a b) p"
proof (cases "isNull a")
  case True
  then show ?thesis by (simp add: united_def)
next
  case na: False
  show ?thesis
  proof (cases "isNull b")
    case True
    then show ?thesis using na by (simp add: united_def)
  next
    case False
    have m: "min (x + d) (y + d) = min x y + d" "max (x + d) (y + d) = max x y + d"
      for x y d :: int
      by simp_all
    have i: "(if c then x + d else y + d) = (if c then x else y) + d" for c and x y d :: int
      by simp
    have "united (translated a p) (translated b p) =
        \<lparr>rc_x1 = rc_x1 (united a b) + pt_x p, rc_y1 = rc_y1 (united a b) + pt_y p,
         rc_x2 = rc_x2 (united a b) + pt_x p, rc_y2 = rc_y2 (united a b) + pt_y p\<rparr>"
      using na False
      by (simp add: united_def Let_def i m split del: if_split cong: if_cong
          del: min_add_distrib_left max_add_distrib_left
          min_add_distrib_right max_add_distrib_right)
    then show ?thesis
      by (simp add: translated_def)
  qed
qed
lemma united_all_translated:
  "united_all (translated acc p) (map (\<lambda>r. translated r p) rs) =
     translated (united_all acc rs) p"
  by (induction rs arbitrary: acc) (simp_all add: united_translated)

lemma united_default [simp]: "united QRect_default r = r"
  by (simp add: united_def isNull_def QRect_default_def)

lemma united_all_default_translated:
  "rs \<noteq> [] \<Longrightarrow>
     united_all QRect_default (map (\<lambda>r. translated r p) rs) =
       translated (united_all QRect_default rs) p"
  by (cases rs) (simp_all add: united_all_translated)

lemma topLeft_at_origin:
  "topLeft (translated r (point_minus \<lparr>pt_x = 0, pt_y = 0\<rparr> (topLeft r))) = \<lparr>pt_x = 0, pt_y = 0\<rparr>"
  by (simp add: topLeft_def translated_def point_minus_def)

lemma doInitialize_succeeded:
  assumes "duplicators s = []" and "desktop_rect s = QRect_default"
    and "fst (doInitialize ops env s)"
  shows "initialized_adapters ops (devices env) \<noteq> [] \<and>
         duplicators (snd (doInitialize ops env s)) =
           map (\<lambda>d. ad_translateRect ops d (origin_offset ops (initialized_adapters ops (devices env))))
             (initialized_adapters ops (devices env)) \<and>
         desktop_rect (snd (doInitialize ops env s)) =
           translated
             (united_all QRect_default
                (map (ad_desktopRect ops) (initialized_adapters ops (devices env))))
             (origin_offset ops (initialized_adapters ops (devices env)))"
proof -
  have ne: "devices env \<noteq> []"
    using assms(3) by (auto simp: doInitialize_def)
  show ?thesis
    using assms ne
    by (simp add: doInitialize_def Let_def doInitialize_loop_duplicators
        doInitialize_loop_desktop_rect origin_offset_def split: option.splits)
qed

lemma desktop_invariant_same_view:
  assumes "desktop_invariant ops s" and "desktop_rect s1 = desktop_rect s"
    and "map (adapter_rects ops) (duplicators s1) = map (adapter_rects ops) (duplicators s)"
  shows "desktop_invariant ops s1"
proof -
  have "(duplicators s1 = []) = (duplicators s = [])"
    using assms(3) by (metis map_is_Nil_conv)
  then show ?thesis
    using assms by (simp add: desktop_invariant_def)
qed

lemma desktop_invariant_deinitialize [simp]: "desktop_invariant ops (deinitialize s)"
  by (simp add: desktop_invariant_def)

lemma desktop_invariant_initialize:
  assumes "translation_applied ops" and "desktop_invariant ops s"
  shows "desktop_invariant ops (snd (initialize ops env s))"
proof (cases "duplicators s = []")
  case False
  then show ?thesis using assms(2) by (simp add: initialize_def)
next
  case True
  then have dr: "desktop_rect s = QRect_default"
    using assms(2) by (simp add: desktop_invariant_def)
  show ?thesis
  proof (cases "fst (doInitialize ops env s)")
    case False
    then have "snd (initialize ops env s) = deinitialize (snd (doInitialize ops env s))"
      using True by (cases "doInitialize ops env s") (simp add: initialize_def)
    then show ?thesis by simp
  next
    case ok: True
    then have eq: "snd (initialize ops env s) = snd (doInitialize ops env s)"
      using True by (cases "doInitialize ops env s") (simp add: initialize_def)
    note d = doInitialize_succeeded [OF True dr ok]
    let ?found = "initialized_adapters ops (devices env)"
    have rects: "map (adapter_rects ops) (duplicators (snd (doInitialize ops env s))) =
        map (\<lambda>a. translated_rects (adapter_rects ops a) (origin_offset ops ?found)) ?found"
      using d assms(1) by (simp add: translation_applied_def)
    have "duplicators (snd (doInitialize ops env s)) \<noteq> []"
      using d by simp
    then show ?thesis
      unfolding eq desktop_invariant_def using d rects by auto
  qed
qed

lemma desktop_invariant_poll_display:
  "desktop_invariant ops s \<Longrightarrow> desktop_invariant ops (poll_display env s)"
  by (cases "isChanged (display_configuration_monitor s) env")
    (auto simp: poll_display_def Let_def desktop_invariant_def)

lemma desktop_invariant_unregister:
  assumes "preserved_by_capture ops (adapter_rects ops)" and "desktop_invariant ops s"
  shows "desktop_invariant ops (unregister ops s ctx)"
proof (rule desktop_invariant_same_view [OF assms(2)])
  show "desktop_rect (unregister ops s ctx) = desktop_rect s"
    by (simp add: unregister_def)
  show "map (adapter_rects ops) (duplicators (unregister ops s ctx)) =
      map (adapter_rects ops) (duplicators s)"
    using unregister_loop_observed [OF assms(1)] by (simp add: unregister_def)
qed

lemma doDuplicate_cases [consumes 1, case_names stopped ran]:
  fixes ops :: "('a, 'c, 'p) collaborators"
  assumes "doDuplicate ops env s fr m = Inr (r, s2, fr2)"
  obtains
    (stopped) "s2 = snd (initialize ops env (poll_display env s))"
  | (ran) ok s1 and fr1 :: "('c, 'p) DxgiFrame" and s3 ctx3 t3 where
      "initialize ops env (poll_display env s) = (True, s1)"
      "doDuplicateUnlocked ops env s1 (frame_context fr1) m ((frame fr1)\<lparr>updatedRegion := []\<rparr>) =
         Inr (ok, s3, ctx3, t3)"
      "s2 = s3\<lparr>succeeded_duplications := succeeded_duplications s3 + 1\<rparr> \<or> s2 = s3 \<or>
       s2 = deinitialize s3"
proof -
  obtain ok1 s1 where init: "initialize ops env (poll_display env s) = (ok1, s1)"
    by (cases "initialize ops env (poll_display env s)")
  obtain ok2 fr1 where prep: "fr_prepare ops fr (selectedDesktopSize ops s1 m) m = (ok2, fr1)"
    by (cases "fr_prepare ops fr (selectedDesktopSize ops s1 m) m")
  show ?thesis
  proof (cases ok1)
    case False
    then have "s2 = s1"
      using assms init by (simp add: doDuplicate_def split: if_splits)
    then show ?thesis using stopped init by simp
  next
    case True
    then have i: "initialize ops env (poll_display env s) = (True, s1)"
      using init by simp
    show ?thesis
    proof (cases ok2)
      case False
      then have "s2 = s1"
        using assms doDuplicate_prepare_failed [OF i, of fr m fr1] prep by simp
      then show ?thesis using stopped init by simp
    next
      case True
      then have p: "fr_prepare ops fr (selectedDesktopSize ops s1 m) m = (True, fr1)"
        using prep by simp
      let ?run = "doDuplicateUnlocked ops env s1 (frame_context fr1) m
        ((frame fr1)\<lparr>updatedRegion := []\<rparr>)"
      obtain x where rx: "?run = Inr x"
        using assms unfolding doDuplicate_prepared [OF i p] by (cases ?run) simp_all
      obtain ok s3 ctx3 t3 where x: "x = (ok, s3, ctx3, t3)"
        by (cases x)
      have "s2 = s3\<lparr>succeeded_duplications := succeeded_duplications s3 + 1\<rparr> \<or> s2 = s3 \<or>
         s2 = deinitialize s3"
        using assms unfolding doDuplicate_prepared [OF i p] rx x by (simp split: if_splits)
      then show ?thesis
        by (rule ran [OF i rx [unfolded x]])
    qed
  qed
qed

lemma initializing_operations:
  "snd (isSupported ops env s) = snd (initialize ops env s)"
  "snd (retrieveD3dInfo ops env s) = snd (initialize ops env s)"
  "snd (dpi ops env s) = snd (initialize ops env s)"
  "snd (screenCount ops env s) = snd (initialize ops env s)"
  "snd (deviceNames ops env s output) = snd (initialize ops env s)"
proof -
  obtain ok s1 where i: "initialize ops env s = (ok, s1)"
    by (cases "initialize ops env s")
  show "snd (isSupported ops env s) = snd (initialize ops env s)"
    by (simp add: isSupported_def)
  show "snd (retrieveD3dInfo ops env s) = snd (initialize ops env s)"
    by (simp add: retrieveD3dInfo_def i)
  show "snd (dpi ops env s) = snd (initialize ops env s)"
    by (cases ok) (simp_all add: dpi_def i)
  show "snd (screenCount ops env s) = snd (initialize ops env s)"
    by (cases ok) (simp_all add: screenCount_def i)
  show "snd (deviceNames ops env s output) = snd (initialize ops env s)"
    by (cases ok) (simp_all add: deviceNames_def i)
qed

lemma desktop_invariant_doDuplicate:
  assumes ta: "translation_applied ops" and pc: "preserved_by_capture ops (adapter_rects ops)"
    and inv: "desktop_invariant ops s"
    and run: "doDuplicate ops env s fr m = Inr (r, s2, fr2)"
  shows "desktop_invariant ops s2"
proof -
  have i1: "desktop_invariant ops (snd (initialize ops env (poll_display env s)))"
    using desktop_invariant_initialize [OF ta desktop_invariant_poll_display [OF inv]] .
  from run show ?thesis
  proof (cases rule: doDuplicate_cases)
    case stopped
    then show ?thesis using i1 by simp
  next
    case (ran ok s1 fr1 s3 ctx3 t3)
    have inv1: "desktop_invariant ops s1"
      using i1 ran(1) by simp
    have adv: "adapters_advanced s1 s3"
      using doDuplicateUnlocked_advanced [OF ran(2)] .
    have "desktop_invariant ops s3"
    proof (rule desktop_invariant_same_view [OF inv1])
      show "desktop_rect s3 = desktop_rect s1"
        using adapters_advanced_fields [OF adv] by simp
      show "map (adapter_rects ops) (duplicators s3) = map (adapter_rects ops) (duplicators s1)"
        using doDuplicateUnlocked_observed [OF pc ran(2)] .
    qed
    moreover have "desktop_invariant ops (s3\<lparr>succeeded_duplications := n\<rparr>)"
      if "desktop_invariant ops s3" for n
      using that by (simp add: desktop_invariant_def)
    ultimately show ?thesis
      using ran(3) by auto
  qed
qed

lemma desktop_invariant_reachable:
  assumes ta: "translation_applied ops" and pc: "preserved_by_capture ops (adapter_rects ops)"
    and "reachable ops s"
  shows "desktop_invariant ops s"
  using assms(3)
proof (induction rule: reachable.induct)
  case r_new
  then show ?case by (simp add: desktop_invariant_def new_controller_def)
next
  case (r_addRef s)
  then show ?case by (simp add: desktop_invariant_def addRef_def)
next
  case (r_release s)
  then have "desktop_invariant ops (s\<lparr>refcount := refcount s - 1\<rparr>)"
    by (simp add: desktop_invariant_def)
  then show ?case
    by (simp add: release_def unload_def Let_def)
next
  case (r_isSupported s env)
  then show ?case
    using desktop_invariant_initialize [OF ta] by (simp add: initializing_operations)
next
  case (r_retrieveD3dInfo s env)
  then show ?case
    using desktop_invariant_initialize [OF ta] by (simp add: initializing_operations)
next
  case (r_dpi s env)
  then show ?case
    using desktop_invariant_initialize [OF ta] by (simp add: initializing_operations)
next
  case (r_screenCount s env)
  then show ?case
    using desktop_invariant_initialize [OF ta] by (simp add: initializing_operations)
next
  case (r_deviceNames s env out)
  then show ?case
    using desktop_invariant_initialize [OF ta] by (simp add: initializing_operations)
next
  case (r_duplicate s env fr r s1 fr1)
  then show ?case
    using desktop_invariant_doDuplicate [OF ta pc] by (simp add: duplicate_def)
next
  case (r_duplicateMonitor s monitor_id env fr r s1 fr1)
  then show ?case
    using desktop_invariant_doDuplicate [OF ta pc] by (simp add: duplicateMonitor_def)
next
  case (r_unload s)
  then show ?case by (simp add: unload_def)
next
  case (r_unregister s ctx)
  then show ?case
    using desktop_invariant_unregister [OF pc] by simp
qed

text \<open>
  C5. In every state the public operations can reach, while there are adapters, the
  desktop rectangle has its top-left corner at \<open>(0, 0)\<close>; it is the union of the
  desktop rectangles of the adapters; and it is the union of the desktop rectangles
  the adapters had when the initialization found them, moved by the negation of that
  union's top-left corner, the rectangles of every adapter being the ones it had
  then, moved by the same offset. The adapters are taken to do what the spec says of
  them: \<^verbatim>\<open>translateRect\<close> adds the offset to all rectangles of the adapter, and the
  capture calls leave the rectangles alone.
\<close>

theorem C5_desktop_rect_invariant:
  assumes "translation_applied ops" and "preserved_by_capture ops (adapter_rects ops)"
    and "reachable ops s" and "duplicators s \<noteq> []"
  shows "topLeft (desktop_rect s) = \<lparr>pt_x = 0, pt_y = 0\<rparr> \<and>
         desktop_rect s = united_all QRect_default (map (ad_desktopRect ops) (duplicators s)) \<and>
         (\<exists>devs. initialized_adapters ops devs \<noteq> [] \<and>
            desktop_rect s =
              translated
                (united_all QRect_default
                   (map (ad_desktopRect ops) (initialized_adapters ops devs)))
                (point_minus \<lparr>pt_x = 0, pt_y = 0\<rparr>
                   (topLeft (united_all QRect_default
                      (map (ad_desktopRect ops) (initialized_adapters ops devs))))) \<and>
            map (adapter_rects ops) (duplicators s) =
              map (\<lambda>a. translated_rects (adapter_rects ops a)
                     (point_minus \<lparr>pt_x = 0, pt_y = 0\<rparr>
                        (topLeft (united_all QRect_default
                           (map (ad_desktopRect ops) (initialized_adapters ops devs))))))
                (initialized_adapters ops devs))"
proof -
  have "desktop_invariant ops s"
    using assms(1-3) by (rule desktop_invariant_reachable)
  then obtain devs where
    ne: "initialized_adapters ops devs \<noteq> []" and
    dr: "desktop_rect s =
      translated
        (united_all QRect_default (map (ad_desktopRect ops) (initialized_adapters ops devs)))
        (origin_offset ops (initialized_adapters ops devs))" and
    rs: "map (adapter_rects ops) (duplicators s) =
      map (\<lambda>a. translated_rects (adapter_rects ops a)
             (origin_offset ops (initialized_adapters ops devs)))
        (initialized_adapters ops devs)"
    using assms(4) by (auto simp: desktop_invariant_def)
  let ?found = "initialized_adapters ops devs"
  let ?off = "origin_offset ops ?found"
  have tl: "topLeft (desktop_rect s) = \<lparr>pt_x = 0, pt_y = 0\<rparr>"
    unfolding dr origin_offset_def by (rule topLeft_at_origin)
  have "map (ad_desktopRect ops) (duplicators s) = map fst (map (adapter_rects ops) (duplicators s))"
    by (simp add: adapter_rects_def comp_def)
  also have "\<dots> = map (\<lambda>r. translated r ?off) (map (ad_desktopRect ops) ?found)"
    unfolding rs by (simp add: translated_rects_def adapter_rects_def comp_def)
  finally have eq: "map (ad_desktopRect ops) (duplicators s) =
      map (\<lambda>r. translated r ?off) (map (ad_desktopRect ops) ?found)" .
  have "united_all QRect_default (map (\<lambda>r. translated r ?off) (map (ad_desktopRect ops) ?found)) =
      translated (united_all QRect_default (map (ad_desktopRect ops) ?found)) ?off"
    by (rule united_all_default_translated) (simp add: ne)
  then have "united_all QRect_default (map (ad_desktopRect ops) (duplicators s)) =
      translated (united_all QRect_default (map (ad_desktopRect ops) ?found)) ?off"
    by (simp only: eq)
  then have un: "desktop_rect s = united_all QRect_default (map (ad_desktopRect ops) (duplicators s))"
    using dr by simp
  show ?thesis
    using tl un ne dr rs unfolding origin_offset_def by blast
qed

section \<open>The simulated platform meets the assumptions on adapters\<close>

lemma sim_adapter_rects: "adapter_rects (sim_ops b) a = (sa_rect a, sa_screens a)"
  by (auto simp: adapter_rects_def sim_ops_def intro!: nth_equalityI)

lemma sim_translation_applied: "translation_applied (sim_ops b)"
proof -
  have "ad_translateRect (sim_ops b) a p =
      a\<lparr>sa_rect := translated (sa_rect a) p,
        sa_screens := map (\<lambda>r. translated r p) (sa_screens a)\<rparr>" for a p
    by (simp add: sim_ops_def)
  then show ?thesis
    by (simp add: translation_applied_def sim_adapter_rects translated_rects_def)
qed

lemma sim_rects_preserved: "preserved_by_capture (sim_ops b) (adapter_rects (sim_ops b))"
proof -
  have "fst (ad_setup (sim_ops b) a c) = a\<lparr>sa_registered := sa_registered a + 1\<rparr>"
    "ad_unregister (sim_ops b) a c = a\<lparr>sa_registered := sa_registered a - 1\<rparr>"
    "ad_duplicate (sim_ops b) a c t = sim_capture a c t"
    "ad_duplicateMonitor (sim_ops b) a c i t = sim_capture a c t" for a c i t
    by (simp_all add: sim_ops_def)
  then show ?thesis
    by (simp add: preserved_by_capture_def sim_adapter_rects sim_capture_def)
qed

theorem C5_witness:
  "translation_applied (sim_ops True) \<and>
   preserved_by_capture (sim_ops True) (adapter_rects (sim_ops True)) \<and>
   reachable (sim_ops True)
     (fst (snd (projr (duplicate (sim_ops True) (sim_env [0, 1] (Some 1)) new_controller sim_frame)))) \<and>
   map sa_rect (duplicators
     (fst (snd (projr (duplicate (sim_ops True) (sim_env [0, 1] (Some 1)) new_controller sim_frame)))))
     = [sim_screen 1920, sim_screen 0] \<and>
   desktop_rect
     (fst (snd (projr (duplicate (sim_ops True) (sim_env [0, 1] (Some 1)) new_controller sim_frame))))
     = united_all QRect_default [sim_screen 1920, sim_screen 0] \<and>
   topLeft (desktop_rect
     (fst (snd (projr (duplicate (sim_ops True) (sim_env [0, 1] (Some 1)) new_controller sim_frame)))))
     = \<lparr>pt_x = 0, pt_y = 0\<rparr>"
proof -
  let ?ops = "sim_ops True"
  let ?call = "duplicate ?ops (sim_env [0, 1] (Some 1)) new_controller sim_frame"
  let ?s = "fst (snd (projr ?call))"
  have h: "?call = Inr (SUCCEEDED, ?s, snd (snd (projr ?call)))"
    by code_simp
  have r: "reachable ?ops ?s"
    using reachable.r_duplicate [OF reachable.r_new h] .
  have rects: "map sa_rect (duplicators ?s) = [sim_screen 1920, sim_screen 0]"
    by code_simp
  then have ne: "duplicators ?s \<noteq> []"
    by auto
  have d: "ad_desktopRect ?ops = sa_rect"
    by (simp add: sim_ops_def)
  note t = C5_desktop_rect_invariant [OF sim_translation_applied sim_rects_preserved r ne]
  have tl: "topLeft (desktop_rect ?s) = \<lparr>pt_x = 0, pt_y = 0\<rparr>"
    using t by (rule conjunct1)
  have "desktop_rect ?s = united_all QRect_default (map (ad_desktopRect ?ops) (duplicators ?s))"
    using t by (rule conjunct1 [OF conjunct2])
  then have un: "desktop_rect ?s = united_all QRect_default [sim_screen 1920, sim_screen 0]"
    unfolding d rects .
  show ?thesis
    by (rule conjI [OF sim_translation_applied], rule conjI [OF sim_rects_preserved],
        rule conjI [OF r], rule conjI [OF rects], rule conjI [OF un], rule tl)
qed

section \<open>Teardown paths\<close>

lemma doDuplicate_failed_cases [consumes 1]:
  fixes ops :: "('a, 'c, 'p) collaborators"
  assumes "doDuplicate ops env s fr m = Inr (DUPLICATION_FAILED, s2, fr2)"
  obtains s1 and fr1 :: "('c, 'p) DxgiFrame" and s3 ctx3 t3 where
    "initialize ops env (poll_display env s) = (True, s1)"
    "doDuplicateUnlocked ops env s1 (frame_context fr1) m ((frame fr1)\<lparr>updatedRegion := []\<rparr>) =
       Inr (False, s3, ctx3, t3)"
    "s2 = deinitialize s3"
proof -
  obtain ok1 s1 where init: "initialize ops env (poll_display env s) = (ok1, s1)"
    by (cases "initialize ops env (poll_display env s)")
  obtain ok2 fr1 where prep: "fr_prepare ops fr (selectedDesktopSize ops s1 m) m = (ok2, fr1)"
    by (cases "fr_prepare ops fr (selectedDesktopSize ops s1 m) m")
  have ok1
    using assms init by (cases ok1) (simp_all add: doDuplicate_def split: if_splits)
  then have i: "initialize ops env (poll_display env s) = (True, s1)"
    using init by simp
  have ok2
    using assms doDuplicate_prepare_failed [OF i, of fr m fr1] prep by (cases ok2) simp_all
  then have p: "fr_prepare ops fr (selectedDesktopSize ops s1 m) m = (True, fr1)"
    using prep by simp
  let ?run = "doDuplicateUnlocked ops env s1 (frame_context fr1) m
    ((frame fr1)\<lparr>updatedRegion := []\<rparr>)"
  obtain x where rx: "?run = Inr x"
    using assms unfolding doDuplicate_prepared [OF i p] by (cases ?run) simp_all
  obtain ok s3 ctx3 t3 where x: "x = (ok, s3, ctx3, t3)"
    by (cases x)
  have "\<not> ok \<and> s2 = deinitialize s3"
    using assms unfolding doDuplicate_prepared [OF i p] rx x by (simp split: if_splits)
  then show ?thesis
    using that [OF i] rx x by simp
qed

text \<open>
  C9. Teardown, on each path that reaches it (unload, a release of the last
  reference, a display change seen by the poll at the start of a duplication, a
  duplication that fails on a valid monitor id), writes only the desktop rectangle,
  the adapters and the display-change probe: \<^verbatim>\<open>deinitialize\<close> leaves the identity,
  the count of succeeded duplications, the DPI and the recorded feature levels as
  they are.
\<close>

theorem C9_teardown_frame:
  "identity (deinitialize s) = identity s \<and>
   succeeded_duplications (deinitialize s) = succeeded_duplications s \<and>
   dpi_xy (deinitialize s) = dpi_xy s \<and>
   d3d_info (deinitialize s) = d3d_info s \<and>
   refcount (deinitialize s) = refcount s \<and>
   deinitialize s =
     s\<lparr>desktop_rect := QRect_default, duplicators := [], display_configuration_monitor := None\<rparr> \<and>
   unload s = deinitialize s \<and>
   identity (release s) = identity s \<and>
   succeeded_duplications (release s) = succeeded_duplications s \<and>
   dpi_xy (release s) = dpi_xy s \<and>
   d3d_info (release s) = d3d_info s \<and>
   identity (poll_display env s) = identity s \<and>
   succeeded_duplications (poll_display env s) = succeeded_duplications s \<and>
   dpi_xy (poll_display env s) = dpi_xy s \<and>
   d3d_info (poll_display env s) = d3d_info s \<and>
   (\<forall>s2 fr2. doDuplicate ops env s fr monitor_id = Inr (DUPLICATION_FAILED, s2, fr2) \<longrightarrow>
      identity s2 = identity (snd (initialize ops env (poll_display env s))) \<and>
      succeeded_duplications s2 = succeeded_duplications s \<and>
      dpi_xy s2 = dpi_xy (snd (initialize ops env (poll_display env s))) \<and>
      d3d_info s2 = d3d_info (snd (initialize ops env (poll_display env s))))"
proof -
  have failed: "identity s2 = identity (snd (initialize ops env (poll_display env s))) \<and>
      succeeded_duplications s2 = succeeded_duplications s \<and>
      dpi_xy s2 = dpi_xy (snd (initialize ops env (poll_display env s))) \<and>
      d3d_info s2 = d3d_info (snd (initialize ops env (poll_display env s)))"
    if "doDuplicate ops env s fr monitor_id = Inr (DUPLICATION_FAILED, s2, fr2)" for s2 fr2
    using that
  proof (cases rule: doDuplicate_failed_cases)
    case (1 s1 fr1 s3 ctx3 t3)
    have f: "identity s3 = identity s1 \<and> succeeded_duplications s3 = succeeded_duplications s1 \<and>
        dpi_xy s3 = dpi_xy s1 \<and> d3d_info s3 = d3d_info s1"
      using adapters_advanced_fields [OF doDuplicateUnlocked_advanced [OF 1(2)]] by simp
    have "succeeded_duplications s1 = succeeded_duplications s"
      using initialize_fields(1) [of ops env "poll_display env s"] 1(1) by simp
    then show ?thesis
      using f 1(1,3) by simp
  qed
  show ?thesis
    using failed by (simp add: unload_def release_def Let_def deinitialize_def)
qed


theorem C9_witness:
  "identity (release (addRef (fst (snd (projr
     (duplicate (sim_ops True) (sim_env [0, 1] (Some 1)) new_controller sim_frame)))))) = 1 \<and>
   succeeded_duplications (release (addRef (fst (snd (projr
     (duplicate (sim_ops True) (sim_env [0, 1] (Some 1)) new_controller sim_frame)))))) = 1 \<and>
   duplicators (release (addRef (fst (snd (projr
     (duplicate (sim_ops True) (sim_env [0, 1] (Some 1)) new_controller sim_frame)))))) = [] \<and>
   map_sum id fst (doDuplicate (sim_ops True) (sim_env [0, 2] (Some 1)) new_controller sim_frame 0)
     = Inr DUPLICATION_FAILED \<and>
   identity (fst (snd (projr
     (doDuplicate (sim_ops True) (sim_env [0, 2] (Some 1)) new_controller sim_frame 0)))) = 1 \<and>
   d3d_info (fst (snd (projr
     (doDuplicate (sim_ops True) (sim_env [0, 2] (Some 1)) new_controller sim_frame 0)))) =
     \<lparr>min_feature_level = 45056, max_feature_level = 45058\<rparr>"
proof -
  let ?ops = "sim_ops True"
  let ?s = "addRef (fst (snd (projr
     (duplicate ?ops (sim_env [0, 1] (Some 1)) new_controller sim_frame))))"
  let ?env = "sim_env [0, 2] (Some 1)"
  let ?call = "doDuplicate ?ops ?env new_controller sim_frame 0"
  have a: "identity ?s = 1" "succeeded_duplications ?s = 1"
    by code_simp+
  have b: "duplicators (release ?s) = []"
    by code_simp
  have h: "?call = Inr (DUPLICATION_FAILED, fst (snd (projr ?call)), snd (snd (projr ?call)))"
    by code_simp
  have i: "identity (snd (initialize ?ops ?env (poll_display ?env new_controller))) = 1"
    "d3d_info (snd (initialize ?ops ?env (poll_display ?env new_controller))) =
       \<lparr>min_feature_level = 45056, max_feature_level = 45058\<rparr>"
    by code_simp+
  note t1 = C9_teardown_frame [where s = ?s and ops = ?ops and env = ?env and fr = sim_frame
      and monitor_id = 0]
  note t2 = C9_teardown_frame [where s = new_controller and ops = ?ops and env = ?env
      and fr = sim_frame and monitor_id = 0]
  have r: "identity (release ?s) = 1" "succeeded_duplications (release ?s) = 1"
    using t1 a by simp_all
  have f: "identity (fst (snd (projr ?call))) = 1 \<and>
      d3d_info (fst (snd (projr ?call))) = \<lparr>min_feature_level = 45056, max_feature_level = 45058\<rparr>"
    using t2 h i by metis
  have m: "map_sum id fst ?call = Inr DUPLICATION_FAILED"
    using h by (metis fst_conv id_apply map_sum.simps(2))
  show ?thesis
    by (rule conjI [OF r(1)], rule conjI [OF r(2)], rule conjI [OF b], rule conjI [OF m], rule f)
qed

end
